theory Spec2Isabelle
  imports Main "HOL-Library.AList" "HOL-Library.Char_ord" "HOL-Library.List_Lexorder"
begin

section \<open>Python values, errors and documents\<close>

text \<open>
  The exceptions of \<^verbatim>\<open>work_with_files.py\<close> (lines 9-22) and the built-in ones its
  expressions can raise. \<open>InvalidSequenceLength\<close> carries the configured limit that the
  message is formatted with. \<open>Diverged\<close> stands for a loop that never returns, and
  \<open>Unmodelled\<close> for a Python operation on values outside the fragment written out here
  (\<^verbatim>\<open>str\<close> of a container).
\<close>

datatype error =
    InvalidTypeError
  | InvalidSequenceLength int
  | InvalidValueError
  | FibonacciError
  | ZeroDivisionError
  | TypeError
  | ValueError
  | AttributeError
  | KeyError
  | UnicodeDecodeError
  | Diverged
  | Unmodelled

text \<open>
  Python values as they occur in decoded records and results: what \<^verbatim>\<open>json.load\<close>
  produces (floats left out), and the tuple and set shapes of \<^verbatim>\<open>get_sequence\<close>.
  A dict is an association list with string keys.
\<close>

datatype pyval =
    PNone
  | PBool bool
  | PInt int
  | PStr string
  | PList "pyval list"
  | PTuple "pyval list"
  | PSet "pyval list"
  | PDict "(string \<times> pyval) list"

text \<open>Truthiness, as \<^verbatim>\<open>and\<close> and \<^verbatim>\<open>not\<close> test it.\<close>

fun truthy :: "pyval \<Rightarrow> bool" where
  "truthy PNone = False"
| "truthy (PBool b) = b"
| "truthy (PInt n) = (n \<noteq> 0)"
| "truthy (PStr s) = (s \<noteq> [])"
| "truthy (PList xs) = (xs \<noteq> [])"
| "truthy (PTuple xs) = (xs \<noteq> [])"
| "truthy (PSet xs) = (xs \<noteq> [])"
| "truthy (PDict kvs) = (kvs \<noteq> [])"

text \<open>\<^verbatim>\<open>d.get(k)\<close>: only a dict has the method; a missing key gives \<^verbatim>\<open>None\<close>.\<close>

fun py_get :: "pyval \<Rightarrow> string \<Rightarrow> error + pyval" where
  "py_get (PDict kvs) k = (case map_of kvs k of None \<Rightarrow> Inr PNone | Some v \<Rightarrow> Inr v)"
| "py_get _ k = Inl AttributeError"

text \<open>\<^verbatim>\<open>d[k]\<close> with a string key on a decoded record.\<close>

fun py_item :: "pyval \<Rightarrow> string \<Rightarrow> error + pyval" where
  "py_item (PDict kvs) k = (case map_of kvs k of None \<Rightarrow> Inl KeyError | Some v \<Rightarrow> Inr v)"
| "py_item _ k = Inl TypeError"

text \<open>The integer an arithmetic operand stands for (\<^verbatim>\<open>bool\<close> is a subclass of \<^verbatim>\<open>int\<close>).\<close>

fun as_int :: "pyval \<Rightarrow> error + int" where
  "as_int (PInt n) = Inr n"
| "as_int (PBool b) = Inr (if b then 1 else 0)"
| "as_int _ = Inl TypeError"

text \<open>\<^verbatim>\<open>a - b\<close>, \<^verbatim>\<open>a // b\<close> and \<^verbatim>\<open>a % b\<close> on integers; Python floors, as HOL does on \<open>int\<close>.\<close>

definition py_sub :: "pyval \<Rightarrow> pyval \<Rightarrow> error + int" where
  "py_sub a b =
     (case as_int a of Inl e \<Rightarrow> Inl e
      | Inr x \<Rightarrow> (case as_int b of Inl e \<Rightarrow> Inl e | Inr y \<Rightarrow> Inr (x - y)))"

definition py_floordiv :: "int \<Rightarrow> int \<Rightarrow> error + int" where
  "py_floordiv a b = (if b = 0 then Inl ZeroDivisionError else Inr (a div b))"

definition py_mod :: "int \<Rightarrow> int \<Rightarrow> error + int" where
  "py_mod a b = (if b = 0 then Inl ZeroDivisionError else Inr (a mod b))"

text \<open>\<^verbatim>\<open>v == n\<close> for an integer \<open>n\<close>: values of another kind are just unequal.\<close>

fun eq_int :: "pyval \<Rightarrow> int \<Rightarrow> bool" where
  "eq_int (PInt m) n = (m = n)"
| "eq_int (PBool b) n = ((if b then 1 else 0) = n)"
| "eq_int _ n = False"

fun eq_str :: "pyval \<Rightarrow> string \<Rightarrow> bool" where
  "eq_str (PStr s) t = (s = t)"
| "eq_str _ t = False"

definition bindE :: "error + 'a \<Rightarrow> ('a \<Rightarrow> error + 'b) \<Rightarrow> error + 'b" where
  "bindE m f = (case m of Inl e \<Rightarrow> Inl e | Inr x \<Rightarrow> f x)"

text \<open>A chain of \<^verbatim>\<open>and\<close>: evaluated left to right, stopping at the first falsy operand.\<close>

fun all_true :: "(error + bool) list \<Rightarrow> error + bool" where
  "all_true [] = Inr True"
| "all_true (m # ms) =
     (case m of Inl e \<Rightarrow> Inl e | Inr b \<Rightarrow> if b then all_true ms else Inr False)"

definition get_truthy :: "error + pyval \<Rightarrow> error + bool" where
  "get_truthy m = bindE m (\<lambda>v. Inr (truthy v))"

text \<open>Iteration over a value (\<^verbatim>\<open>for i in v\<close>, \<^verbatim>\<open>tuple(v)\<close>, \<^verbatim>\<open>set(v)\<close>); a dict yields its keys.\<close>

fun py_iter :: "pyval \<Rightarrow> error + pyval list" where
  "py_iter (PList xs) = Inr xs"
| "py_iter (PTuple xs) = Inr xs"
| "py_iter (PSet xs) = Inr xs"
| "py_iter (PDict kvs) = Inr (map (\<lambda>kv. PStr (fst kv)) kvs)"
| "py_iter (PStr s) = Inr (map (\<lambda>c. PStr [c]) s)"
| "py_iter _ = Inl TypeError"

definition py_len :: "pyval \<Rightarrow> error + int" where
  "py_len v = bindE (py_iter v) (\<lambda>xs. Inr (int (length xs)))"

subsection \<open>Decimal strings\<close>

definition digit_char :: "nat \<Rightarrow> char" where
  "digit_char d = char_of (48 + d)"

definition is_digit :: "char \<Rightarrow> bool" where
  "is_digit c = (48 \<le> (of_char c :: nat) \<and> (of_char c :: nat) \<le> 57)"

definition digit_val :: "char \<Rightarrow> nat" where
  "digit_val c = of_char c - 48"

fun str_nat :: "nat \<Rightarrow> string" where
  "str_nat n = (if n < 10 then [digit_char n] else str_nat (n div 10) @ [digit_char (n mod 10)])"

declare str_nat.simps [simp del]

text \<open>\<^verbatim>\<open>str(i)\<close> of an integer.\<close>

definition str_int :: "int \<Rightarrow> string" where
  "str_int i = (if i < 0 then CHR ''-'' # str_nat (nat (- i)) else str_nat (nat i))"

text \<open>
  CPython refuses to convert between \<^verbatim>\<open>int\<close> and \<^verbatim>\<open>str\<close> beyond a number of decimal
  digits (\<^verbatim>\<open>sys.get_int_max_str_digits()\<close>, 4300 by default since 3.11 and in the later
  releases of 3.7 to 3.10); the conversion then raises \<^verbatim>\<open>ValueError\<close>.
\<close>

definition int_max_str_digits :: nat where
  "int_max_str_digits = 4300"

definition digits_ok :: "int \<Rightarrow> bool" where
  "digits_ok i = (length (str_nat (nat \<bar>i\<bar>)) \<le> int_max_str_digits)"

text \<open>\<^verbatim>\<open>str(i)\<close> and \<^verbatim>\<open>f'{i}'\<close> as the interpreter runs them.\<close>

definition str_checked :: "int \<Rightarrow> error + string" where
  "str_checked i = (if digits_ok i then Inr (str_int i) else Inl ValueError)"

text \<open>
  \<^verbatim>\<open>int(s)\<close> of a string: surrounding ASCII whitespace is dropped, one sign is allowed,
  and digits may be grouped by single underscores. Too many digits and a malformed
  literal both raise \<^verbatim>\<open>ValueError\<close>.
\<close>

definition is_space :: "char \<Rightarrow> bool" where
  "is_space c = ((of_char c :: nat) = 32 \<or> (9 \<le> (of_char c :: nat) \<and> (of_char c :: nat) \<le> 13)
                 \<or> (28 \<le> (of_char c :: nat) \<and> (of_char c :: nat) \<le> 31))"

fun parse_digits :: "nat \<Rightarrow> bool \<Rightarrow> string \<Rightarrow> nat option" where
  "parse_digits acc d [] = (if d then Some acc else None)"
| "parse_digits acc d (c # cs) =
     (if is_digit c then parse_digits (10 * acc + digit_val c) True cs
      else if c = CHR ''_'' \<and> d then parse_digits acc False cs
      else None)"

definition strip :: "string \<Rightarrow> string" where
  "strip s = rev (dropWhile is_space (rev (dropWhile is_space s)))"

definition int_of_string :: "string \<Rightarrow> error + int" where
  "int_of_string s =
     (case strip s of
        [] \<Rightarrow> Inl ValueError
      | c # cs \<Rightarrow>
          (if length (filter is_digit (c # cs)) > int_max_str_digits then Inl ValueError
           else if c = CHR ''-'' then
             (case parse_digits 0 False cs of None \<Rightarrow> Inl ValueError | Some n \<Rightarrow> Inr (- int n))
           else if c = CHR ''+'' then
             (case parse_digits 0 False cs of None \<Rightarrow> Inl ValueError | Some n \<Rightarrow> Inr (int n))
           else
             (case parse_digits 0 False (c # cs) of None \<Rightarrow> Inl ValueError | Some n \<Rightarrow> Inr (int n))))"

text \<open>\<^verbatim>\<open>int(e.text)\<close>: the text of an element may be \<^verbatim>\<open>None\<close>.\<close>

definition int_of_text :: "string option \<Rightarrow> error + int" where
  "int_of_text t = (case t of None \<Rightarrow> Inl TypeError | Some s \<Rightarrow> int_of_string s)"

text \<open>\<^verbatim>\<open>str(v)\<close> for the elements a sequence holds.\<close>

fun py_str :: "pyval \<Rightarrow> error + string" where
  "py_str (PInt n) = str_checked n"
| "py_str (PStr s) = Inr s"
| "py_str (PBool b) = Inr (if b then ''True'' else ''False'')"
| "py_str PNone = Inr ''None''"
| "py_str _ = Inl Unmodelled"

text \<open>Running a fallible function over a list, left to right.\<close>

fun mapE :: "('a \<Rightarrow> error + 'b) \<Rightarrow> 'a list \<Rightarrow> error + 'b list" where
  "mapE f [] = Inr []"
| "mapE f (x # xs) =
     (case f x of Inl e \<Rightarrow> Inl e
      | Inr y \<Rightarrow> (case mapE f xs of Inl e \<Rightarrow> Inl e | Inr ys \<Rightarrow> Inr (y # ys)))"

subsection \<open>Markup documents\<close>

text \<open>An element of \<^verbatim>\<open>xml.etree.ElementTree\<close>: tag, attributes, text and children.\<close>

datatype xml = Elem (tag: string) (attrib: "(string \<times> string) list") (el_text: "string option")
  (children: "xml list")

definition sub_elems :: "string \<Rightarrow> xml \<Rightarrow> xml list" where
  "sub_elems t e = filter (\<lambda>c. tag c = t) (children e)"

text \<open>\<^verbatim>\<open>root.findall('./a/b')\<close> and \<^verbatim>\<open>root.find('./a/b')\<close> for a path of tags.\<close>

fun findall :: "string list \<Rightarrow> xml \<Rightarrow> xml list" where
  "findall [] e = [e]"
| "findall (t # ts) e = concat (map (findall ts) (sub_elems t e))"

definition find :: "string list \<Rightarrow> xml \<Rightarrow> xml option" where
  "find p e = (case findall p e of [] \<Rightarrow> None | x # _ \<Rightarrow> Some x)"

text \<open>Truth value of \<^verbatim>\<open>root.find(p)\<close>: \<^verbatim>\<open>None\<close> and an element without children are falsy.\<close>

definition elem_truthy :: "xml option \<Rightarrow> error + bool" where
  "elem_truthy r = Inr (case r of None \<Rightarrow> False | Some e \<Rightarrow> children e \<noteq> [])"

text \<open>\<^verbatim>\<open>root.find(p).text\<close>: on \<^verbatim>\<open>None\<close> the attribute access raises.\<close>

definition find_text :: "string list \<Rightarrow> xml \<Rightarrow> error + string option" where
  "find_text p e = (case find p e of None \<Rightarrow> Inl AttributeError | Some x \<Rightarrow> Inr (el_text x))"

definition text_truthy :: "string list \<Rightarrow> xml \<Rightarrow> error + bool" where
  "text_truthy p e =
     bindE (find_text p e) (\<lambda>t. Inr (case t of None \<Rightarrow> False | Some s \<Rightarrow> s \<noteq> []))"

text \<open>\<^verbatim>\<open>XMLSerializer._validate_data\<close> (lines 44-60).\<close>

definition xml_validate_data :: "xml \<Rightarrow> error + bool" where
  "xml_validate_data root =
     all_true
       [elem_truthy (find [''sequence''] root),
        elem_truthy (find [''metadata''] root),
        text_truthy [''metadata'', ''type''] root,
        text_truthy [''metadata'', ''seq_type''] root,
        text_truthy [''metadata'', ''len''] root,
        text_truthy [''metadata'', ''el_type''] root,
        text_truthy [''metadata'', ''max''] root,
        text_truthy [''metadata'', ''date_created''] root,
        text_truthy [''metadata'', ''date_modified''] root,
        text_truthy [''metadata'', ''author''] root]"

text \<open>
  What a file holds: nothing; bytes that are not text in the file's encoding, on which
  reading raises \<^verbatim>\<open>UnicodeDecodeError\<close>; text that does not parse; or a document of one
  format, given by what the parser makes of it.
\<close>

datatype content = Empty | Undecodable | Malformed | JsonDoc pyval | XmlDoc xml

text \<open>
  \<^verbatim>\<open>XMLSerializer.encode\<close> (lines 62-84); \<open>now\<close> is the formatted current time. The
  serialised text is represented by the tree it parses back to.
\<close>

definition leaf :: "string \<Rightarrow> string \<Rightarrow> xml" where
  "leaf t s = Elem t [] (Some s) []"

definition xml_el :: "bool \<Rightarrow> pyval \<Rightarrow> error + xml" where
  "xml_el is_dict i =
     bindE (py_str i) (\<lambda>s. Inr (Elem ''el'' (if is_dict then [(''key'', s)] else []) (Some s) []))"

definition xml_encode ::
  "string \<Rightarrow> pyval \<Rightarrow> string \<Rightarrow> string \<Rightarrow> string \<Rightarrow> string \<Rightarrow> int \<Rightarrow> int \<Rightarrow> error + content" where
  "xml_encode now sequence s_type seq_type cr_time author min_el max_el =
     bindE (py_iter sequence) (\<lambda>items.
     bindE (mapE (xml_el (case sequence of PDict _ \<Rightarrow> True | _ \<Rightarrow> False)) items) (\<lambda>els.
     bindE (str_checked (int (length items))) (\<lambda>len_text.
     bindE (str_checked min_el) (\<lambda>min_text.
     bindE (str_checked max_el) (\<lambda>max_text.
     Inr (XmlDoc (Elem ''data'' [] None
       [Elem ''sequence'' [] None els,
        Elem ''metadata'' [] None
          [leaf ''type'' s_type,
           leaf ''seq_type'' seq_type,
           leaf ''len'' len_text,
           leaf ''el_type'' ''int'',
           leaf ''date_created'' cr_time,
           leaf ''date_modified'' now,
           leaf ''author'' author,
           leaf ''min'' min_text,
           leaf ''max'' max_text]])))))))"

text \<open>The two comprehensions of \<^verbatim>\<open>XMLSerializer.decode\<close> (lines 96-102).\<close>

fun dict_of_els :: "(string \<times> pyval) list \<Rightarrow> xml list \<Rightarrow> error + (string \<times> pyval) list" where
  "dict_of_els acc [] = Inr acc"
| "dict_of_els acc (i # r) =
     (case map_of (attrib i) ''key'' of
        None \<Rightarrow> Inl KeyError
      | Some k \<Rightarrow>
          (case int_of_text (el_text i) of
             Inl e \<Rightarrow> Inl e
           | Inr n \<Rightarrow> dict_of_els (AList.update k (PInt n) acc) r))"

definition list_of_els :: "xml list \<Rightarrow> error + pyval list" where
  "list_of_els els = mapE (\<lambda>i. bindE (int_of_text (el_text i)) (\<lambda>n. Inr (PInt n))) els"

definition opt_str :: "string option \<Rightarrow> pyval" where
  "opt_str t = (case t of None \<Rightarrow> PNone | Some s \<Rightarrow> PStr s)"

text \<open>
  \<^verbatim>\<open>XMLSerializer.decode\<close> (lines 86-121). A parse error is printed and the method
  returns \<^verbatim>\<open>None\<close>; so does a document that fails validation. Only the parse error is
  caught.
\<close>

definition xml_decode :: "content \<Rightarrow> error + pyval option" where
  "xml_decode c =
     (case c of
        XmlDoc root \<Rightarrow>
          bindE (xml_validate_data root) (\<lambda>ok.
            if \<not> ok then Inr None
            else
              bindE (find_text [''metadata'', ''type''] root) (\<lambda>sq_type.
              bindE (if sq_type = Some ''dict''
                     then bindE (dict_of_els [] (findall [''sequence'', ''el''] root))
                            (\<lambda>kvs. Inr (PDict kvs))
                     else bindE (list_of_els (findall [''sequence'', ''el''] root))
                            (\<lambda>xs. Inr (PList xs))) (\<lambda>seq.
              bindE (find_text [''metadata'', ''seq_type''] root) (\<lambda>st.
              bindE (py_len seq) (\<lambda>n.
              bindE (find_text [''metadata'', ''date_created''] root) (\<lambda>dc.
              bindE (find_text [''metadata'', ''date_modified''] root) (\<lambda>dm.
              bindE (find_text [''metadata'', ''author''] root) (\<lambda>au.
              bindE (bindE (find_text [''metadata'', ''min''] root) int_of_text) (\<lambda>mn.
              bindE (bindE (find_text [''metadata'', ''max''] root) int_of_text) (\<lambda>mx.
              Inr (Some (PDict
                [(''sequence'', seq),
                 (''metadata'', PDict
                   [(''type'', opt_str sq_type),
                    (''seq_type'', opt_str st),
                    (''len'', PInt n),
                    (''el_type'', PStr ''int''),
                    (''date_created'', opt_str dc),
                    (''date_modified'', opt_str dm),
                    (''author'', opt_str au),
                    (''min'', PInt mn),
                    (''max'', PInt mx)])]))))))))))))
      | Undecodable \<Rightarrow> Inl UnicodeDecodeError
      | _ \<Rightarrow> Inr None)"

subsection \<open>Record notation\<close>

text \<open>\<^verbatim>\<open>'min' in d.keys()\<close>.\<close>

fun has_key :: "string \<Rightarrow> pyval \<Rightarrow> error + bool" where
  "has_key k (PDict kvs) = Inr (k \<in> set (map fst kvs))"
| "has_key k _ = Inl AttributeError"

definition meta_get :: "pyval \<Rightarrow> string \<Rightarrow> error + pyval" where
  "meta_get data k = bindE (py_get data ''metadata'') (\<lambda>m. py_get m k)"

text \<open>\<^verbatim>\<open>JSONSerializer._validate_data\<close> (lines 125-139).\<close>

definition json_validate_data :: "pyval \<Rightarrow> error + bool" where
  "json_validate_data data =
     all_true
       [get_truthy (py_get data ''sequence''),
        get_truthy (py_get data ''metadata''),
        get_truthy (meta_get data ''type''),
        get_truthy (meta_get data ''seq_type''),
        get_truthy (meta_get data ''len''),
        get_truthy (meta_get data ''el_type''),
        get_truthy (meta_get data ''author''),
        bindE (py_get data ''metadata'') (has_key ''min''),
        get_truthy (meta_get data ''max'')]"

text \<open>\<^verbatim>\<open>JSONSerializer.encode\<close> (lines 141-156): the dict handed to \<^verbatim>\<open>json.dump\<close>.\<close>

definition json_encode ::
  "string \<Rightarrow> pyval \<Rightarrow> string \<Rightarrow> string \<Rightarrow> string \<Rightarrow> string \<Rightarrow> int \<Rightarrow> int \<Rightarrow> error + pyval" where
  "json_encode now sequence s_type seq_type cr_time author min_el max_el =
     bindE (py_len sequence) (\<lambda>n.
     Inr (PDict
       [(''sequence'', sequence),
        (''metadata'', PDict
          [(''type'', PStr s_type),
           (''seq_type'', PStr seq_type),
           (''len'', PInt n),
           (''el_type'', PStr ''int''),
           (''date_created'', PStr cr_time),
           (''date_modified'', PStr now),
           (''author'', PStr author),
           (''min'', PInt min_el),
           (''max'', PInt max_el)])]))"

text \<open>
  \<^verbatim>\<open>json.dump\<close>: the value is serialised item by item, in order. A set is not
  serialisable (\<^verbatim>\<open>TypeError\<close>), an integer beyond the digit limit is not printed
  (\<^verbatim>\<open>ValueError\<close>), a tuple is written as an array. The text written is represented by the
  value \<^verbatim>\<open>json.load\<close> reads back from it.
\<close>

fun json_value :: "pyval \<Rightarrow> error + pyval"
  and json_values :: "pyval list \<Rightarrow> error + pyval list"
  and json_items :: "(string \<times> pyval) list \<Rightarrow> error + (string \<times> pyval) list" where
  "json_value (PInt i) = (if digits_ok i then Inr (PInt i) else Inl ValueError)"
| "json_value (PList xs) = (case json_values xs of Inl e \<Rightarrow> Inl e | Inr ys \<Rightarrow> Inr (PList ys))"
| "json_value (PTuple xs) = (case json_values xs of Inl e \<Rightarrow> Inl e | Inr ys \<Rightarrow> Inr (PList ys))"
| "json_value (PSet xs) = Inl TypeError"
| "json_value (PDict kvs) = (case json_items kvs of Inl e \<Rightarrow> Inl e | Inr ws \<Rightarrow> Inr (PDict ws))"
| "json_value PNone = Inr PNone"
| "json_value (PBool b) = Inr (PBool b)"
| "json_value (PStr t) = Inr (PStr t)"
| "json_values [] = Inr []"
| "json_values (x # xs) =
     (case json_value x of Inl e \<Rightarrow> Inl e
      | Inr y \<Rightarrow> (case json_values xs of Inl e \<Rightarrow> Inl e | Inr ys \<Rightarrow> Inr (y # ys)))"
| "json_items [] = Inr []"
| "json_items (kv # kvs) =
     (case json_value (snd kv) of Inl e \<Rightarrow> Inl e
      | Inr y \<Rightarrow> (case json_items kvs of Inl e \<Rightarrow> Inl e | Inr ws \<Rightarrow> Inr ((fst kv, y) # ws)))"

definition json_dump :: "pyval \<Rightarrow> error + content" where
  "json_dump data = bindE (json_value data) (\<lambda>v. Inr (JsonDoc v))"

text \<open>A numeral beyond the digit limit makes \<^verbatim>\<open>json.load\<close> raise \<^verbatim>\<open>ValueError\<close>.\<close>

fun ints_ok :: "pyval \<Rightarrow> bool"
  and ints_ok_list :: "pyval list \<Rightarrow> bool"
  and ints_ok_items :: "(string \<times> pyval) list \<Rightarrow> bool" where
  "ints_ok (PInt i) = digits_ok i"
| "ints_ok (PList xs) = ints_ok_list xs"
| "ints_ok (PTuple xs) = ints_ok_list xs"
| "ints_ok (PSet xs) = ints_ok_list xs"
| "ints_ok (PDict kvs) = ints_ok_items kvs"
| "ints_ok PNone = True"
| "ints_ok (PBool b) = True"
| "ints_ok (PStr t) = True"
| "ints_ok_list [] = True"
| "ints_ok_list (x # xs) = (ints_ok x \<and> ints_ok_list xs)"
| "ints_ok_items [] = True"
| "ints_ok_items (kv # kvs) = (ints_ok (snd kv) \<and> ints_ok_items kvs)"

text \<open>
  \<^verbatim>\<open>JSONSerializer.decode\<close> (lines 158-165). Only \<^verbatim>\<open>JSONDecodeError\<close> is caught: text
  that does not parse gives \<^verbatim>\<open>None\<close>, the other failures of \<^verbatim>\<open>json.load\<close> are raised.
\<close>

definition json_decode :: "content \<Rightarrow> error + pyval option" where
  "json_decode c =
     (case c of
        JsonDoc json_data \<Rightarrow>
          if \<not> ints_ok json_data then Inl ValueError
          else
            bindE (json_validate_data json_data) (\<lambda>ok.
              if ok then Inr (Some json_data) else Inr None)
      | Undecodable \<Rightarrow> Inl UnicodeDecodeError
      | _ \<Rightarrow> Inr None)"

section \<open>Generators: the range and its greatest element\<close>

datatype gen_kind = ListGenerator | TupleGenerator | SetGenerator | DictGenerator

record generator =
  kind :: gen_kind
  max_length :: int

text \<open>\<^verbatim>\<open>BaseGenerator.__init__\<close> (lines 171-176), with an integer argument.\<close>

definition new_generator :: "gen_kind \<Rightarrow> int \<Rightarrow> error + generator" where
  "new_generator k n =
     (if n > 0 then Inr \<lparr>kind = k, max_length = n\<rparr> else Inl InvalidTypeError)"

text \<open>\<^verbatim>\<open>__check_seq_length\<close> (lines 181-186).\<close>

definition check_seq_length :: "generator \<Rightarrow> int \<Rightarrow> error + bool" where
  "check_seq_length g n =
     (if n < max_length g then Inr True
      else Inl (InvalidSequenceLength (max_length g)))"

text \<open>The \<^verbatim>\<open>while n < stop\<close> loop of \<^verbatim>\<open>_custom_range\<close> (lines 204-207), collected.\<close>

partial_function (option) range_loop :: "int \<Rightarrow> int \<Rightarrow> int \<Rightarrow> int list option" where
  "range_loop n stop step =
     (if n < stop
      then Option.bind (range_loop (n + step) stop step) (\<lambda>xs. Some (n # xs))
      else Some [])"

declare range_loop.simps [code]

text \<open>The element count computed at lines 199-201.\<close>

definition seq_count :: "int \<Rightarrow> int \<Rightarrow> int \<Rightarrow> int" where
  "seq_count start stop step =
     (let remainder = (stop - start) mod step;
          seq_length = (stop - start) div step
      in if remainder = 0 then seq_length else seq_length + 1)"

text \<open>
  The values \<open>n, n + step, n + 2 * step, \<dots>\<close> below \<open>stop\<close>, written without the loop;
  \<open>range_loop_pos\<close> below shows that the loop returns exactly these when \<open>0 < step\<close>.
\<close>

definition range_elems :: "int \<Rightarrow> int \<Rightarrow> int \<Rightarrow> int list" where
  "range_elems n stop step =
     map (\<lambda>k. n + int k * step) [0..<nat ((stop - n + step - 1) div step)]"

text \<open>
  \<^verbatim>\<open>_custom_range\<close> (lines 188-207), consumed whole as the comprehensions of
  \<^verbatim>\<open>_create_sequence\<close> do. The arguments are integers, so the \<^verbatim>\<open>isinstance\<close>
  branch is never taken; a missing \<^verbatim>\<open>stop\<close> skips the other checks, as in the source.
\<close>

definition custom_range :: "generator \<Rightarrow> int \<Rightarrow> int option \<Rightarrow> int \<Rightarrow> error + int list" where
  "custom_range g start0 stop0 step =
     (let (start, stop, bad) =
        (case stop0 of
           None \<Rightarrow> (0, start0, None)
         | Some s \<Rightarrow>
             (start0, s,
              if step < 0 then Some InvalidValueError
              else if start0 > s then Some InvalidValueError
              else None))
      in case bad of
           Some e \<Rightarrow> Inl e
         | None \<Rightarrow>
            (case py_mod (stop - start) step of
               Inl e \<Rightarrow> Inl e
             | Inr remainder \<Rightarrow>
                (case check_seq_length g (seq_count start stop step) of
                   Inl e \<Rightarrow> Inl e
                 | Inr ok \<Rightarrow>
                    (if ok
                     then (case range_loop start stop step of
                             None \<Rightarrow> Inl Diverged
                           | Some xs \<Rightarrow> Inr xs)
                     else Inr []))))"

text \<open>\<^verbatim>\<open>__max_in_range\<close> (lines 209-221).\<close>

definition max_in_range :: "int \<Rightarrow> int option \<Rightarrow> int \<Rightarrow> error + int" where
  "max_in_range start0 stop0 step =
     (let (start, stop, bad) =
        (case stop0 of
           None \<Rightarrow> (0, start0, None)
         | Some s \<Rightarrow>
             (start0, s,
              if step < 0 then Some InvalidValueError
              else if start0 > s then Some InvalidValueError
              else None))
      in case bad of
           Some e \<Rightarrow> Inl e
         | None \<Rightarrow>
            (case py_mod ((stop - 1) - start) step of
               Inl e \<Rightarrow> Inl e
             | Inr r \<Rightarrow> Inr ((stop - 1) - r)))"

subsection \<open>The hooks of the four generators\<close>

text \<open>\<^verbatim>\<open>__repr__\<close> (line 178) and \<^verbatim>\<open>_sequence_type\<close>.\<close>

fun repr :: "gen_kind \<Rightarrow> string" where
  "repr ListGenerator = ''ListGenerator''"
| "repr TupleGenerator = ''TupleGenerator''"
| "repr SetGenerator = ''SetGenerator''"
| "repr DictGenerator = ''DictGenerator''"

fun sequence_type :: "gen_kind \<Rightarrow> string" where
  "sequence_type ListGenerator = ''list''"
| "sequence_type TupleGenerator = ''tuple''"
| "sequence_type SetGenerator = ''set''"
| "sequence_type DictGenerator = ''dict''"

text \<open>
  \<^verbatim>\<open>_sequence_type_check\<close>: the list generator's (lines 405-409) is inherited by the
  tuple generator; the set and dict generators override it (434-435, 455-456).
\<close>

fun sequence_type_check :: "gen_kind \<Rightarrow> pyval \<Rightarrow> bool" where
  "sequence_type_check ListGenerator t = (eq_str t ''list'' \<or> eq_str t ''tuple'' \<or> eq_str t ''set'')"
| "sequence_type_check TupleGenerator t = (eq_str t ''list'' \<or> eq_str t ''tuple'' \<or> eq_str t ''set'')"
| "sequence_type_check SetGenerator t = eq_str t (sequence_type SetGenerator)"
| "sequence_type_check DictGenerator t = eq_str t (sequence_type DictGenerator)"

text \<open>\<^verbatim>\<open>_create_sequence\<close> (lines 395-396, 444-445).\<close>

definition create_sequence :: "generator \<Rightarrow> int \<Rightarrow> int option \<Rightarrow> int \<Rightarrow> error + pyval" where
  "create_sequence g start stop step =
     bindE (custom_range g start stop step) (\<lambda>xs.
       (case kind g of
          DictGenerator \<Rightarrow>
            bindE (mapE (\<lambda>i. bindE (str_checked i) (\<lambda>k. Inr (k, PInt i))) xs) (\<lambda>kvs.
              Inr (PDict (fold (\<lambda>kv acc. AList.update (fst kv) (snd kv) acc) kvs [])))
        | _ \<Rightarrow> Inr (PList (map PInt xs))))"

text \<open>\<^verbatim>\<open>_generate_fibonacci\<close> (lines 398-399, 430-432, 447-449).\<close>

fun gen_fibonacci_hook :: "gen_kind \<Rightarrow> int list \<Rightarrow> error + pyval" where
  "gen_fibonacci_hook SetGenerator xs = Inl FibonacciError"
| "gen_fibonacci_hook DictGenerator xs = Inl FibonacciError"
| "gen_fibonacci_hook _ xs = Inr (PList (map PInt xs))"

text \<open>\<^verbatim>\<open>__fibonacci\<close> (lines 309-313): \<open>n - 1\<close> rounds of the simultaneous assignment.\<close>

fun fib_rounds :: "nat \<Rightarrow> int \<Rightarrow> int \<Rightarrow> int" where
  "fib_rounds 0 first second = first"
| "fib_rounds (Suc k) first second = fib_rounds k second (first + second)"

definition fibonacci :: "int \<Rightarrow> int \<Rightarrow> int \<Rightarrow> int" where
  "fibonacci first second n = fib_rounds (nat (n - 1)) first second"

section \<open>The equivalence check\<close>

text \<open>\<^verbatim>\<open>__check_equal_sequences\<close> (lines 223-240).\<close>

definition check_equal_sequences ::
  "generator \<Rightarrow> string \<Rightarrow> pyval option \<Rightarrow> int \<Rightarrow> int \<Rightarrow> int \<Rightarrow> error + bool" where
  "check_equal_sequences g data_type data min_el max_el step =
     (case data of
        None \<Rightarrow> Inr False
      | Some d \<Rightarrow>
          bindE (py_item d ''metadata'') (\<lambda>meta.
          bindE (if data_type = ''range''
                 then bindE (py_item meta ''max'') (\<lambda>mx.
                      bindE (py_item meta ''min'') (\<lambda>mn.
                      bindE (py_sub mx mn) (\<lambda>diff.
                      bindE (py_item meta ''len'') (\<lambda>ln.
                      bindE (py_sub ln (PInt 1)) (\<lambda>m.
                      py_floordiv diff m)))))
                 else Inr 0) (\<lambda>json_step.
          bindE (py_item meta ''type'') (\<lambda>ty.
          bindE (py_item meta ''seq_type'') (\<lambda>st.
          bindE (py_item meta ''max'') (\<lambda>mx.
          bindE (if eq_int mx max_el
                 then bindE (py_item meta ''min'') (\<lambda>mn. Inr (eq_int mn min_el))
                 else Inr False) (\<lambda>el_check.
          Inr (sequence_type_check (kind g) ty \<and> eq_str st data_type \<and> el_check
               \<and> step = json_step))))))))"

section \<open>The two files\<close>

text \<open>
  A file has its content and the time \<^verbatim>\<open>os.path.getctime\<close> reports for it, already in
  \<^verbatim>\<open>TIME_FORMAT\<close>.

  Modelled from the spec: \<^verbatim>\<open>os.path.getctime\<close> is the operating system's; the model
  takes it as the file's creation time, fixed when the file is created and kept by later
  writes ("derived from the file's own creation time, not wall-clock now").
\<close>

record disk_file =
  content :: content
  ctime :: string

record fs =
  json_file :: "disk_file option"
  xml_file :: "disk_file option"

text \<open>\<^verbatim>\<open>__get_serializer\<close> and \<^verbatim>\<open>__get_path\<close> (lines 242-262) accept the same two tags.\<close>

definition supported :: "string \<Rightarrow> bool" where
  "supported data_format = (data_format = ''xml'' \<or> data_format = ''json'')"

definition get_file :: "string \<Rightarrow> fs \<Rightarrow> disk_file option" where
  "get_file data_format s = (if data_format = ''xml'' then xml_file s else json_file s)"

definition put_file :: "string \<Rightarrow> disk_file \<Rightarrow> fs \<Rightarrow> fs" where
  "put_file data_format f s =
     (if data_format = ''xml'' then s\<lparr>xml_file := Some f\<rparr> else s\<lparr>json_file := Some f\<rparr>)"

definition decode :: "string \<Rightarrow> content \<Rightarrow> error + pyval option" where
  "decode data_format c = (if data_format = ''xml'' then xml_decode c else json_decode c)"

text \<open>\<^verbatim>\<open>__remove_unsupported_file\<close> (lines 264-271); the format is a string.\<close>

definition remove_unsupported_file :: "string \<Rightarrow> fs \<Rightarrow> fs" where
  "remove_unsupported_file data_format s =
     (if json_file s \<noteq> None \<and> data_format = ''xml'' then s\<lparr>json_file := None\<rparr>
      else if xml_file s \<noteq> None \<and> data_format = ''json'' then s\<lparr>xml_file := None\<rparr>
      else s)"

text \<open>\<^verbatim>\<open>open(file_path, 'a+')\<close>: a missing file is created empty, at the current time.\<close>

definition open_append :: "string \<Rightarrow> string \<Rightarrow> fs \<Rightarrow> disk_file \<times> fs" where
  "open_append data_format now s =
     (case get_file data_format s of
        Some f \<Rightarrow> (f, s)
      | None \<Rightarrow> (let f = \<lparr>content = Empty, ctime = now\<rparr> in (f, put_file data_format f s)))"

text \<open>\<^verbatim>\<open>file.truncate(0)\<close> followed by the write of the encoded record.\<close>

definition rewrite :: "string \<Rightarrow> disk_file \<Rightarrow> content \<Rightarrow> fs \<Rightarrow> fs" where
  "rewrite data_format f c s = put_file data_format (f\<lparr>content := c\<rparr>) s"

text \<open>
  Lines 303-307 and 346-350: encode, truncate, write. The markup codec returns the text,
  which is written after the truncation. The record codec returns a dict, and
  \<^verbatim>\<open>json.dump\<close> serialises it into the file after the truncation: when it raises, the
  file is left with the part written so far, which does not parse.
\<close>

definition store ::
  "string \<Rightarrow> string \<Rightarrow> disk_file \<Rightarrow> fs \<Rightarrow> pyval \<Rightarrow> string \<Rightarrow> string \<Rightarrow> string \<Rightarrow> string \<Rightarrow> int \<Rightarrow> int
     \<Rightarrow> fs \<times> (error + unit)" where
  "store data_format now f s sequence s_type seq_type cr_time author min_el max_el =
     (if data_format = ''xml'' then
        (case xml_encode now sequence s_type seq_type cr_time author min_el max_el of
           Inl e \<Rightarrow> (s, Inl e)
         | Inr data \<Rightarrow> (rewrite data_format f data s, Inr ()))
      else
        (case json_encode now sequence s_type seq_type cr_time author min_el max_el of
           Inl e \<Rightarrow> (s, Inl e)
         | Inr data \<Rightarrow>
             (case json_dump data of
                Inl e \<Rightarrow> (rewrite data_format f Malformed s, Inl e)
              | Inr c \<Rightarrow> (rewrite data_format f c s, Inr ()))))"

definition no_files :: fs where
  "no_files = \<lparr>json_file = None, xml_file = None\<rparr>"

section \<open>The entry points\<close>

text \<open>
  The part of both generation methods that reads the file: decode it if it is not empty
  and run the equivalence check (lines 288-295, 326-335). The result is the reused
  sequence, if any.
\<close>

definition cached ::
  "generator \<Rightarrow> string \<Rightarrow> string \<Rightarrow> disk_file \<Rightarrow> int \<Rightarrow> int \<Rightarrow> int \<Rightarrow> error + pyval option" where
  "cached g data_format data_type f min_el max_el step =
     (if content f \<noteq> Empty then
        bindE (decode data_format (content f)) (\<lambda>data.
        bindE (check_equal_sequences g data_type data min_el max_el step) (\<lambda>eq.
          if eq
          then (case data of
                  None \<Rightarrow> Inl TypeError
                | Some d \<Rightarrow> bindE (py_item d ''sequence'') (\<lambda>sq. Inr (Some sq)))
          else Inr None))
      else Inr None)"

text \<open>
  \<^verbatim>\<open>generate_sequence\<close> (lines 273-307). The result pairs the files as the call leaves
  them with its outcome; \<open>now\<close> is the formatted current time.
\<close>

definition generate_sequence ::
  "generator \<Rightarrow> string \<Rightarrow> int \<Rightarrow> int option \<Rightarrow> int \<Rightarrow> string \<Rightarrow> fs \<Rightarrow> fs \<times> (error + unit)" where
  "generate_sequence g data_format start0 stop0 step now s0 =
     (let s1 = remove_unsupported_file data_format s0 in
      if \<not> supported data_format then (s1, Inl InvalidValueError)
      else
        (case max_in_range start0 stop0 step of
           Inl e \<Rightarrow> (s1, Inl e)
         | Inr max_element \<Rightarrow>
            (let (start, stop) = (case stop0 of None \<Rightarrow> (0, start0) | Some sp \<Rightarrow> (start0, sp));
                 (f, s2) = open_append data_format now s1
             in case bindE (cached g data_format ''range'' f start max_element step) (\<lambda>hit.
                       case hit of
                         Some sq \<Rightarrow> Inr sq
                       | None \<Rightarrow> create_sequence g start (Some stop) step) of
                  Inl e \<Rightarrow> (s2, Inl e)
                | Inr sequence \<Rightarrow>
                   store data_format now f s2 sequence (sequence_type (kind g)) ''range''
                     (ctime f) (repr (kind g)) start max_element)))"

text \<open>
  \<^verbatim>\<open>int(max(sequence))\<close> of line 344. Integers compare as numbers and strings (the keys
  of a dict) by code point, the greatest string then being read as an integer; on
  anything else \<^verbatim>\<open>max\<close> or \<^verbatim>\<open>int\<close> raises \<^verbatim>\<open>TypeError\<close>.
\<close>

fun as_str :: "pyval \<Rightarrow> error + string" where
  "as_str (PStr t) = Inr t"
| "as_str _ = Inl TypeError"

definition py_max :: "pyval \<Rightarrow> error + int" where
  "py_max v =
     bindE (py_iter v) (\<lambda>xs.
       if xs = [] then Inl ValueError
       else (case mapE as_int xs of
               Inr ns \<Rightarrow> Inr (Max (set ns))
             | Inl _ \<Rightarrow>
                (case mapE as_str xs of
                   Inr ts \<Rightarrow> int_of_string (Max (set ts))
                 | Inl _ \<Rightarrow> Inl TypeError)))"

text \<open>The terms built at lines 337-339.\<close>

definition fib_sequence :: "int \<Rightarrow> int \<Rightarrow> int \<Rightarrow> int list" where
  "fib_sequence first second n = [first, second] @ map (fibonacci first second) [3..n]"

text \<open>\<^verbatim>\<open>generate_fibonacci\<close> (lines 315-350).\<close>

definition generate_fibonacci ::
  "generator \<Rightarrow> string \<Rightarrow> int \<Rightarrow> int \<Rightarrow> int \<Rightarrow> string \<Rightarrow> fs \<Rightarrow> fs \<times> (error + unit)" where
  "generate_fibonacci g data_format first second n now s0 =
     (let s1 = remove_unsupported_file data_format s0 in
      case check_seq_length g n of
        Inl e \<Rightarrow> (s1, Inl e)
      | Inr _ \<Rightarrow>
         if \<not> supported data_format then (s1, Inl InvalidValueError)
         else
           (let (f, s2) = open_append data_format now s1
            in case bindE (cached g data_format ''fibonacci'' f first
                             (fibonacci first second (n - 1)) 0) (\<lambda>hit.
                      case hit of
                        Some sq \<Rightarrow> Inr sq
                      | None \<Rightarrow> gen_fibonacci_hook (kind g) (fib_sequence first second n)) of
                 Inl e \<Rightarrow> (s2, Inl e)
               | Inr sequence \<Rightarrow>
                  (case py_max sequence of
                     Inl e \<Rightarrow> (s2, Inl e)
                   | Inr mx \<Rightarrow>
                      store data_format now f s2 sequence (sequence_type (kind g)) ''fibonacci''
                        (ctime f) (repr (kind g)) first mx)))"

text \<open>\<^verbatim>\<open>a > b\<close> between a stored length and the limit.\<close>

definition py_gt :: "pyval \<Rightarrow> int \<Rightarrow> error + bool" where
  "py_gt v n = bindE (as_int v) (\<lambda>m. Inr (m > n))"

text \<open>\<^verbatim>\<open>BaseGenerator.get_sequence\<close> (lines 352-373). It only reads.\<close>

definition nonempty_file :: "disk_file option \<Rightarrow> bool" where
  "nonempty_file fo = (case fo of None \<Rightarrow> False | Some f \<Rightarrow> content f \<noteq> Empty)"

definition detect_format :: "fs \<Rightarrow> (string \<times> disk_file) option" where
  "detect_format s =
     (case xml_file s of
        Some f \<Rightarrow>
          if content f \<noteq> Empty then Some (''xml'', f)
          else (case json_file s of
                  Some j \<Rightarrow> if content j \<noteq> Empty then Some (''json'', j) else None
                | None \<Rightarrow> None)
      | None \<Rightarrow>
          (case json_file s of
             Some j \<Rightarrow> if content j \<noteq> Empty then Some (''json'', j) else None
           | None \<Rightarrow> None))"

definition base_get_sequence :: "generator \<Rightarrow> fs \<Rightarrow> error + pyval" where
  "base_get_sequence g s =
     (case detect_format s of
        None \<Rightarrow> Inr (PList [])
      | Some (fmt, f) \<Rightarrow>
          bindE (decode fmt (content f)) (\<lambda>data.
            case data of
              None \<Rightarrow> Inl InvalidValueError
            | Some d \<Rightarrow>
               if \<not> truthy d then Inl InvalidValueError
               else
                 bindE (py_item d ''metadata'') (\<lambda>meta.
                 bindE (py_item meta ''type'') (\<lambda>ty.
                   if \<not> sequence_type_check (kind g) ty then Inl InvalidTypeError
                   else
                     bindE (py_item meta ''len'') (\<lambda>ln.
                     bindE (py_gt ln (max_length g)) (\<lambda>too_long.
                       if too_long then Inl (InvalidSequenceLength (max_length g))
                       else py_item d ''sequence''))))))"

text \<open>Equality of two values as \<^verbatim>\<open>set\<close> sees it, and the elements it can hold.\<close>

fun py_eq :: "pyval \<Rightarrow> pyval \<Rightarrow> bool" where
  "py_eq (PInt a) (PInt b) = (a = b)"
| "py_eq (PInt a) (PBool b) = (a = (if b then 1 else 0))"
| "py_eq (PBool a) (PInt b) = ((if a then 1 else 0) = b)"
| "py_eq x y = (x = y)"

fun hashable :: "pyval \<Rightarrow> bool" where
  "hashable (PList xs) = False"
| "hashable (PSet xs) = False"
| "hashable (PDict kvs) = False"
| "hashable (PTuple xs) = list_all hashable xs"
| "hashable _ = True"

fun dedup :: "pyval list \<Rightarrow> pyval list \<Rightarrow> pyval list" where
  "dedup seen [] = seen"
| "dedup seen (x # xs) = (if list_ex (py_eq x) seen then dedup seen xs else dedup (seen @ [x]) xs)"

text \<open>
  \<^verbatim>\<open>get_sequence\<close> as each generator has it: the tuple and set generators wrap the base
  method's result (lines 419-420, 437-438); the list and dict generators inherit it.
  No branch of it touches the files, so the files it leaves are the ones it found.
\<close>

definition get_sequence :: "generator \<Rightarrow> fs \<Rightarrow> fs \<times> (error + pyval)" where
  "get_sequence g s =
     (s,
      case kind g of
        TupleGenerator \<Rightarrow>
          bindE (base_get_sequence g s) (\<lambda>v. bindE (py_iter v) (\<lambda>xs. Inr (PTuple xs)))
      | SetGenerator \<Rightarrow>
          bindE (base_get_sequence g s) (\<lambda>v. bindE (py_iter v) (\<lambda>xs.
            if list_all hashable xs then Inr (PSet (dedup [] xs)) else Inl TypeError))
      | _ \<Rightarrow> base_get_sequence g s)"

section \<open>Notions used to state the claims\<close>

text \<open>The file of the format that was not requested.\<close>

definition other_file :: "string \<Rightarrow> fs \<Rightarrow> disk_file option" where
  "other_file data_format s = (if data_format = ''xml'' then json_file s else xml_file s)"


text \<open>
  A request finds nothing to reuse: the target file is missing, or reading it ends in a
  miss (the file is empty, does not decode, or fails the equivalence check).
\<close>

definition miss :: "generator \<Rightarrow> string \<Rightarrow> string \<Rightarrow> int \<Rightarrow> int \<Rightarrow> int \<Rightarrow> fs \<Rightarrow> bool" where
  "miss g data_format data_type min_el max_el step s =
     (case get_file data_format s of
        None \<Rightarrow> True
      | Some f \<Rightarrow> cached g data_format data_type f min_el max_el step = Inr None)"

text \<open>The record both codecs build (lines 104-121 and 143-156), for string fields.\<close>

definition stored_record ::
  "pyval \<Rightarrow> string \<Rightarrow> string \<Rightarrow> int \<Rightarrow> string \<Rightarrow> string \<Rightarrow> string \<Rightarrow> int \<Rightarrow> int \<Rightarrow> pyval" where
  "stored_record sequence s_type seq_type n cr_time now author min_el max_el =
     PDict
       [(''sequence'', sequence),
        (''metadata'', PDict
          [(''type'', PStr s_type),
           (''seq_type'', PStr seq_type),
           (''len'', PInt n),
           (''el_type'', PStr ''int''),
           (''date_created'', PStr cr_time),
           (''date_modified'', PStr now),
           (''author'', PStr author),
           (''min'', PInt min_el),
           (''max'', PInt max_el)])]"

text \<open>What a successful write of a record leaves in the file of a format.\<close>

definition serialised ::
  "string \<Rightarrow> string \<Rightarrow> pyval \<Rightarrow> string \<Rightarrow> string \<Rightarrow> string \<Rightarrow> string \<Rightarrow> int \<Rightarrow> int \<Rightarrow> error + content" where
  "serialised data_format now sequence s_type seq_type cr_time author min_el max_el =
     (if data_format = ''xml''
      then xml_encode now sequence s_type seq_type cr_time author min_el max_el
      else bindE (json_encode now sequence s_type seq_type cr_time author min_el max_el) json_dump)"



section \<open>Properties of the range\<close>







section \<open>Properties of the file operations\<close>

lemma other_file_remove:
  "supported fmt \<Longrightarrow> other_file fmt (remove_unsupported_file fmt s) = None"
  by (auto simp: supported_def other_file_def remove_unsupported_file_def)

lemma other_file_put:
  "supported fmt \<Longrightarrow> other_file fmt (put_file fmt f s) = other_file fmt s"
  by (auto simp: supported_def other_file_def put_file_def)

lemma other_file_open:
  "supported fmt \<Longrightarrow> open_append fmt now s = (f, s') \<Longrightarrow> other_file fmt s' = other_file fmt s"
  by (auto simp: open_append_def Let_def other_file_put split: option.splits)

lemma other_file_rewrite:
  "supported fmt \<Longrightarrow> other_file fmt (rewrite fmt f c s) = other_file fmt s"
  by (simp add: rewrite_def other_file_put)








section \<open>Properties of reading and writing the target file\<close>

lemma get_file_remove:
  "supported fmt \<Longrightarrow> get_file fmt (remove_unsupported_file fmt s) = get_file fmt s"
  by (auto simp: supported_def get_file_def remove_unsupported_file_def)

lemma get_file_put: "get_file fmt (put_file fmt f s) = Some f"
  by (simp add: get_file_def put_file_def)

lemma open_append_existing: "get_file fmt s = Some f \<Longrightarrow> open_append fmt now s = (f, s)"
  by (simp add: open_append_def)

lemma open_append_missing:
  "get_file fmt s = None \<Longrightarrow>
   open_append fmt now s =
     (\<lparr>content = Empty, ctime = now\<rparr>, put_file fmt \<lparr>content = Empty, ctime = now\<rparr> s)"
  by (simp add: open_append_def Let_def)

lemma cached_empty: "content f = Empty \<Longrightarrow> cached g fmt dt f a b c = Inr None"
  by (simp add: cached_def)

lemma miss_open:
  assumes "supported fmt" "miss g fmt dt a b c s"
    "open_append fmt now (remove_unsupported_file fmt s) = (f, s2)"
  shows "cached g fmt dt f a b c = Inr None"
proof (cases "get_file fmt s")
  case None
  then have "get_file fmt (remove_unsupported_file fmt s) = None"
    using assms(1) by (simp add: get_file_remove)
  then have "content f = Empty"
    using assms(3) by (auto simp: open_append_missing)
  then show ?thesis by (rule cached_empty)
next
  case (Some f')
  then have "get_file fmt (remove_unsupported_file fmt s) = Some f'"
    using assms(1) by (simp add: get_file_remove)
  then have "f = f'" using assms(3) by (simp add: open_append_existing)
  then show ?thesis using assms(2) Some by (simp add: miss_def)
qed

lemma create_sequence_too_long:
  "0 < step \<Longrightarrow> start \<le> stop \<Longrightarrow> \<not> seq_count start stop step < max_length g \<Longrightarrow>
   create_sequence g start (Some stop) step = Inl (InvalidSequenceLength (max_length g))"
  by (simp add: create_sequence_def custom_range_def py_mod_def check_seq_length_def bindE_def)


lemma get_file_rewrite: "get_file fmt (rewrite fmt f c s) = Some (f\<lparr>content := c\<rparr>)"
  by (simp add: rewrite_def get_file_put)

lemma content_update: "f\<lparr>content := c\<rparr> = \<lparr>content = c, ctime = ctime f\<rparr>"
  by (cases f) simp

section \<open>The greatest element and the length of a range\<close>

lemma range_elems_count:
  assumes "0 < step" "start < stop"
  shows "nat ((stop - start + step - 1) div step) = Suc (nat ((stop - 1 - start) div step))"
proof -
  define x where "x = stop - 1 - start"
  have x0: "0 \<le> x" using assms by (simp add: x_def)
  have s: "stop - start + step - 1 = x + step" by (simp add: x_def)
  have d: "(x + step) div step = x div step + 1"
    using assms(1) div_add_self2 [of step x] by fastforce
  have "0 \<le> x div step" using assms(1) x0 by (simp add: pos_imp_zdiv_nonneg_iff)
  then show ?thesis unfolding s d x_def [symmetric] by simp
qed

lemma range_elems_max:
  assumes "0 < step" "start < stop"
  shows "range_elems start stop step \<noteq> []"
    and "Max (set (range_elems start stop step)) = (stop - 1) - ((stop - 1) - start) mod step"
proof -
  define q where "q = nat ((stop - 1 - start) div step)"
  have q0: "0 \<le> (stop - 1 - start) div step"
    using assms by (simp add: pos_imp_zdiv_nonneg_iff)
  have r: "range_elems start stop step = map (\<lambda>k. start + int k * step) [0..<Suc q]"
    unfolding range_elems_def range_elems_count [OF assms] q_def ..
  show "range_elems start stop step \<noteq> []" unfolding r by simp
  have top: "start + int q * step = (stop - 1) - ((stop - 1) - start) mod step"
  proof -
    have "int q * step = ((stop - 1 - start) div step) * step" using q0 by (simp add: q_def)
    also have "\<dots> = (stop - 1 - start) - (stop - 1 - start) mod step"
      by (simp add: minus_mod_eq_div_mult [symmetric])
    finally show ?thesis by simp
  qed
  have "Max (set (range_elems start stop step)) = start + int q * step"
  proof (rule Max_eqI)
    show "finite (set (range_elems start stop step))" by simp
    show "start + int q * step \<in> set (range_elems start stop step)"
      unfolding r by (auto simp del: upt_Suc intro!: image_eqI [where x = q])
    fix y assume "y \<in> set (range_elems start stop step)"
    then obtain k where "k \<in> set [0..<Suc q]" "y = start + int k * step"
      unfolding r set_map by blast
    then have k: "k \<le> q" "y = start + int k * step" by auto
    then have "int k * step \<le> int q * step"
      using assms(1) by (simp add: mult_right_mono)
    then show "y \<le> start + int q * step" using k by simp
  qed
  then show "Max (set (range_elems start stop step)) = (stop - 1) - ((stop - 1) - start) mod step"
    using top by simp
qed

lemma range_elems_length:
  assumes "0 < step" "start < stop"
  shows "int (length (range_elems start stop step)) = seq_count start stop step"
proof -
  define d where "d = stop - start"
  have d0: "0 < d" using assms by (simp add: d_def)
  have len: "int (length (range_elems start stop step)) = (d - 1) div step + 1"
  proof -
    have nn: "0 \<le> (stop - 1 - start) div step"
      using assms by (simp add: pos_imp_zdiv_nonneg_iff)
    have e: "stop - 1 - start = d - 1" by (simp add: d_def)
    have "length (range_elems start stop step) = Suc (nat ((stop - 1 - start) div step))"
      unfolding range_elems_def range_elems_count [OF assms] by simp
    then have "int (length (range_elems start stop step)) = (stop - 1 - start) div step + 1"
      using nn by simp
    then show ?thesis by (simp only: e)
  qed
  have "(d - 1) div step + 1 = (if d mod step = 0 then d div step else d div step + 1)"
  proof (cases "d mod step = 0")
    case True
    then obtain k where k: "d = step * k" by auto
    then have "0 < k" using d0 assms(1) by (simp add: zero_less_mult_iff)
    have "(step * k - 1) div step = k - 1"
    proof -
      have a: "step * k - 1 = (k - 1) * step + (step - 1)" by (simp add: algebra_simps)
      have b: "((k - 1) * step + (step - 1)) div step = k - 1"
        using assms(1) by (simp add: div_pos_pos_trivial)
      show ?thesis unfolding a by (rule b)
    qed
    then show ?thesis using True k assms(1) by simp
  next
    case False
    define r where "r = d mod step"
    have "0 \<le> r" "r < step" using assms(1) by (simp_all add: r_def)
    then have r: "0 < r" "r < step" using False by (simp_all add: r_def)
    have a: "d - 1 = (d div step) * step + (r - 1)" by (simp add: r_def)
    have b: "((d div step) * step + (r - 1)) div step = d div step"
      using r assms(1) by (simp add: div_pos_pos_trivial)
    have "(d - 1) div step = d div step" unfolding a by (rule b)
    then show ?thesis using False by simp
  qed
  then show ?thesis using len by (simp add: seq_count_def Let_def d_def)
qed


section \<open>Printing and reading integers\<close>

lemma digit_char_props:
  "d < 10 \<Longrightarrow> is_digit (digit_char d)"
  "d < 10 \<Longrightarrow> digit_val (digit_char d) = d"
  "d < 10 \<Longrightarrow> \<not> is_space (digit_char d)"
  "d < 10 \<Longrightarrow> digit_char d \<noteq> CHR ''-''"
  "d < 10 \<Longrightarrow> digit_char d \<noteq> CHR ''+''"
  "d < 10 \<Longrightarrow> digit_char d \<noteq> CHR ''_''"
proof -
  assume d: "d < 10"
  have o: "(of_char (digit_char d) :: nat) = 48 + d"
    using d by (simp add: digit_char_def)
  show "is_digit (digit_char d)" using d by (simp add: is_digit_def o)
  show "digit_val (digit_char d) = d" by (simp add: digit_val_def o)
  show "\<not> is_space (digit_char d)" using d by (simp add: is_space_def o)
  have "(of_char (digit_char d) :: nat) \<noteq> of_char CHR ''-''" using d by (simp add: o)
  then show "digit_char d \<noteq> CHR ''-''" by metis
  have "(of_char (digit_char d) :: nat) \<noteq> of_char CHR ''+''" using d by (simp add: o)
  then show "digit_char d \<noteq> CHR ''+''" by metis
  have "(of_char (digit_char d) :: nat) \<noteq> of_char CHR ''_''" using d by (simp add: o)
  then show "digit_char d \<noteq> CHR ''_''" by metis
qed

lemma str_nat_nonempty: "str_nat n \<noteq> []"
  by (subst str_nat.simps) simp

lemma str_nat_hd: "\<exists>d cs. d < 10 \<and> str_nat n = digit_char d # cs"
proof (induction n rule: str_nat.induct)
  case (1 n)
  show ?case
  proof (cases "n < 10")
    case True
    then show ?thesis by (subst str_nat.simps) auto
  next
    case False
    then obtain d cs where "d < 10" "str_nat (n div 10) = digit_char d # cs"
      using 1 by blast
    then show ?thesis using False by (subst str_nat.simps) auto
  qed
qed

lemma str_nat_last: "\<exists>d cs. d < 10 \<and> str_nat n = cs @ [digit_char d]"
proof (cases "n < 10")
  case True
  then show ?thesis by (subst str_nat.simps) auto
next
  case False
  have "n mod 10 < 10" by simp
  moreover have "str_nat n = str_nat (n div 10) @ [digit_char (n mod 10)]"
    using False by (subst str_nat.simps) simp
  ultimately show ?thesis by blast
qed

lemma parse_digits_str_nat:
  "parse_digits acc d (str_nat n @ cs) = parse_digits (acc * 10 ^ length (str_nat n) + n) True cs"
proof (induction n arbitrary: acc d cs rule: str_nat.induct)
  case (1 n)
  show ?case
  proof (cases "n < 10")
    case True
    then show ?thesis
      by (subst (1 2) str_nat.simps) (simp add: digit_char_props mult.commute)
  next
    case False
    have m: "n mod 10 < 10" by simp
    have "parse_digits acc d (str_nat n @ cs)
        = parse_digits acc d (str_nat (n div 10) @ (digit_char (n mod 10) # cs))"
      using False by (subst str_nat.simps) simp
    also have "\<dots> = parse_digits (acc * 10 ^ length (str_nat (n div 10)) + n div 10) True
        (digit_char (n mod 10) # cs)"
      using 1 [OF False] .
    also have "\<dots> = parse_digits (10 * (acc * 10 ^ length (str_nat (n div 10)) + n div 10) + n mod 10)
        True cs"
      using m by (simp add: digit_char_props)
    also have "10 * (acc * 10 ^ length (str_nat (n div 10)) + n div 10) + n mod 10
        = acc * 10 ^ length (str_nat n) + n"
    proof -
      have "length (str_nat n) = Suc (length (str_nat (n div 10)))"
        using False by (subst str_nat.simps) simp
      then show ?thesis by (simp add: algebra_simps)
    qed
    finally show ?thesis .
  qed
qed

lemma parse_str_nat: "parse_digits 0 False (str_nat n) = Some n"
  using parse_digits_str_nat [of 0 False n "[]"] by simp

lemma strip_str_nat: "strip (str_nat n) = str_nat n"
proof -
  obtain d cs where h: "d < 10" "str_nat n = digit_char d # cs" using str_nat_hd by blast
  obtain e ds where l: "e < 10" "str_nat n = ds @ [digit_char e]" using str_nat_last by blast
  have a: "dropWhile is_space (str_nat n) = str_nat n"
    using h by (simp add: digit_char_props)
  have b: "dropWhile is_space (rev (str_nat n)) = rev (str_nat n)"
    using l by (simp add: digit_char_props)
  show ?thesis by (simp add: strip_def a b)
qed

lemma strip_minus_str_nat: "strip (CHR ''-'' # str_nat n) = CHR ''-'' # str_nat n"
proof -
  obtain e ds where l: "e < 10" "str_nat n = ds @ [digit_char e]" using str_nat_last by blast
  have s: "\<not> is_space CHR ''-''" by (simp add: is_space_def)
  have b: "dropWhile is_space (rev (CHR ''-'' # str_nat n)) = rev (CHR ''-'' # str_nat n)"
    using l by (simp add: digit_char_props)
  have a: "dropWhile is_space (CHR ''-'' # str_nat n) = CHR ''-'' # str_nat n"
    using s by simp
  show ?thesis unfolding strip_def a b by simp
qed

lemma str_nat_digits: "list_all is_digit (str_nat n)"
proof (induction n rule: str_nat.induct)
  case (1 n)
  show ?case
  proof (cases "n < 10")
    case True
    then show ?thesis by (subst str_nat.simps) (simp add: digit_char_props)
  next
    case False
    have "n mod 10 < 10" by simp
    then have "is_digit (digit_char (n mod 10))" by (rule digit_char_props)
    then show ?thesis using False 1 by (subst str_nat.simps) simp
  qed
qed

lemma filter_digits_str_nat: "filter is_digit (str_nat n) = str_nat n"
  using str_nat_digits [of n] by (simp add: list_all_iff)

lemma minus_not_digit: "\<not> is_digit CHR ''-''"
  by (simp add: is_digit_def)

lemma count_digits_str_int: "length (filter is_digit (str_int i)) = length (str_nat (nat \<bar>i\<bar>))"
proof (cases "i < 0")
  case True
  then have "nat (- i) = nat \<bar>i\<bar>" by simp
  then show ?thesis using True by (simp add: str_int_def minus_not_digit filter_digits_str_nat)
next
  case False
  then have "nat i = nat \<bar>i\<bar>" by simp
  then show ?thesis using False by (simp add: str_int_def filter_digits_str_nat)
qed

lemma strip_str_int: "strip (str_int i) = str_int i"
  by (simp add: str_int_def strip_str_nat strip_minus_str_nat)

text \<open>Reading back what \<^verbatim>\<open>str\<close> printed, within the digit limit.\<close>

lemma int_of_string_str_int:
  assumes "digits_ok i"
  shows "int_of_string (str_int i) = Inr i"
proof -
  have lim: "\<not> int_max_str_digits < length (filter is_digit (str_int i))"
    using assms by (simp add: count_digits_str_int digits_ok_def)
  show ?thesis
  proof (cases "i < 0")
    case True
    have s: "strip (CHR ''-'' # str_nat (nat (- i))) = CHR ''-'' # str_nat (nat (- i))"
      by (rule strip_minus_str_nat)
    have l: "\<not> int_max_str_digits < length (filter is_digit (CHR ''-'' # str_nat (nat (- i))))"
      using lim True by (simp add: str_int_def)
    show ?thesis
      using True l unfolding int_of_string_def str_int_def
      by (simp add: s parse_str_nat del: filter.simps)
  next
    case False
    obtain d cs where h: "d < 10" "str_nat (nat i) = digit_char d # cs" using str_nat_hd by blast
    have p: "parse_digits 0 False (digit_char d # cs) = Some (nat i)"
      using parse_str_nat [of "nat i"] unfolding h(2) .
    have st: "strip (digit_char d # cs) = digit_char d # cs"
      using strip_str_nat [of "nat i"] unfolding h(2) .
    have l: "\<not> int_max_str_digits < length (filter is_digit (digit_char d # cs))"
      using lim False by (simp add: str_int_def h(2))
    have "int_of_string (digit_char d # cs) = Inr (int (nat i))"
      unfolding int_of_string_def st using h(1) p l
      by (simp add: digit_char_props del: filter.simps)
    then show ?thesis
      using False h(2) by (simp add: str_int_def)
  qed
qed

lemma str_int_nonempty: "str_int i \<noteq> []"
  by (simp add: str_int_def str_nat_nonempty)

text \<open>Printing is injective, so the keys a dict generator makes are distinct.\<close>

lemma small_digits_ok: "\<bar>i\<bar> < 1000 \<Longrightarrow> digits_ok i"
proof -
  assume a: "\<bar>i\<bar> < 1000"
  define n where "n = nat \<bar>i\<bar>"
  have n: "n < 1000" using a by (simp add: n_def)
  have "length (str_nat n) \<le> 3"
  proof -
    have 1: "length (str_nat k) = 1" if "k < 10" for k
      using that by (subst str_nat.simps) simp
    have 2: "length (str_nat k) \<le> 2" if "k < 100" for k
    proof (cases "k < 10")
      case True then show ?thesis using 1 by simp
    next
      case False
      have "k div 10 < 10" using that by simp
      then show ?thesis using False 1 by (subst str_nat.simps) simp
    qed
    show ?thesis
    proof (cases "n < 10")
      case True then show ?thesis using 1 by simp
    next
      case False
      have "n div 10 < 100" using n by simp
      then show ?thesis using False 2 [of "n div 10"] by (subst str_nat.simps) simp
    qed
  qed
  then show ?thesis by (simp add: digits_ok_def n_def int_max_str_digits_def)
qed

section \<open>Decoding what was encoded\<close>

lemma mapE_xml_el_ints:
  "mapE (xml_el b) (map PInt xs) =
     (if list_all digits_ok xs
      then Inr (map (\<lambda>i. Elem ''el'' (if b then [(''key'', str_int i)] else []) (Some (str_int i)) []) xs)
      else Inl ValueError)"
  by (induction xs) (auto simp: xml_el_def bindE_def str_checked_def)

lemma json_values_ints:
  "json_values (map PInt xs) = (if list_all digits_ok xs then Inr (map PInt xs) else Inl ValueError)"
  by (induction xs) auto

lemma ints_ok_list_ints: "ints_ok_list (map PInt xs) = list_all digits_ok xs"
  by (induction xs) auto

lemma json_encode_record:
  "py_len sq = Inr n \<Longrightarrow>
   json_encode now sq ty st cr au mn mx = Inr (stored_record sq ty st n cr now au mn mx)"
  by (simp add: json_encode_def bindE_def stored_record_def)

lemma json_value_record:
  "json_value (stored_record sq ty st n cr now au mn mx) =
     (case json_value sq of
        Inl e \<Rightarrow> Inl e
      | Inr sq' \<Rightarrow>
          if digits_ok n \<and> digits_ok mn \<and> digits_ok mx
          then Inr (stored_record sq' ty st n cr now au mn mx) else Inl ValueError)"
  by (auto simp: stored_record_def split: sum.splits)

lemma ints_ok_record:
  "ints_ok (stored_record sq ty st n cr now au mn mx)
     = (ints_ok sq \<and> digits_ok n \<and> digits_ok mn \<and> digits_ok mx)"
  by (auto simp: stored_record_def)

lemma json_decode_record:
  "json_decode (JsonDoc (stored_record sq ty st n cr now au mn mx))
     = (if \<not> (ints_ok sq \<and> digits_ok n \<and> digits_ok mn \<and> digits_ok mx) then Inl ValueError
        else if truthy sq \<and> ty \<noteq> [] \<and> st \<noteq> [] \<and> n \<noteq> 0 \<and> au \<noteq> [] \<and> mx \<noteq> 0
        then Inr (Some (stored_record sq ty st n cr now au mn mx)) else Inr None)"
proof -
  have v: "json_validate_data (stored_record sq ty st n cr now au mn mx)
      = Inr (truthy sq \<and> ty \<noteq> [] \<and> st \<noteq> [] \<and> n \<noteq> 0 \<and> au \<noteq> [] \<and> mx \<noteq> 0)"
    by (simp add: json_validate_data_def stored_record_def get_truthy_def meta_get_def bindE_def)
  show ?thesis
    by (simp add: json_decode_def ints_ok_record v bindE_def)
qed

lemma concat_findall_nil: "concat (map (findall []) es) = es"
  by (induction es) simp_all

lemma list_of_els_ints:
  "list_all digits_ok xs \<Longrightarrow>
   list_of_els (map (\<lambda>i. Elem ''el'' [] (Some (str_int i)) []) xs) = Inr (map PInt xs)"
  by (induction xs) (simp_all add: list_of_els_def int_of_text_def int_of_string_str_int bindE_def)

text \<open>The markup text of a record whose sequence is a list of integers.\<close>

lemma xml_encode_ints:
  "xml_encode now (PList (map PInt xs)) ty st cr au mn mx
     = (if list_all digits_ok xs \<and> digits_ok (int (length xs)) \<and> digits_ok mn \<and> digits_ok mx
        then Inr (XmlDoc (Elem ''data'' [] None
         [Elem ''sequence'' [] None (map (\<lambda>i. Elem ''el'' [] (Some (str_int i)) []) xs),
          Elem ''metadata'' [] None
            [leaf ''type'' ty, leaf ''seq_type'' st, leaf ''len'' (str_int (int (length xs))),
             leaf ''el_type'' ''int'', leaf ''date_created'' cr, leaf ''date_modified'' now,
             leaf ''author'' au, leaf ''min'' (str_int mn), leaf ''max'' (str_int mx)]]))
        else Inl ValueError)"
  by (simp add: xml_encode_def bindE_def mapE_xml_el_ints str_checked_def)

lemma xml_decode_ints:
  assumes "ty \<noteq> ''dict''" "list_all digits_ok xs" "digits_ok mn" "digits_ok mx"
  shows "xml_decode (XmlDoc (Elem ''data'' [] None
         [Elem ''sequence'' [] None (map (\<lambda>i. Elem ''el'' [] (Some (str_int i)) []) xs),
          Elem ''metadata'' [] None
            [leaf ''type'' ty, leaf ''seq_type'' st, leaf ''len'' (str_int (int (length xs))),
             leaf ''el_type'' ''int'', leaf ''date_created'' cr, leaf ''date_modified'' now,
             leaf ''author'' au, leaf ''min'' (str_int mn), leaf ''max'' (str_int mx)]]))
     = (if xs \<noteq> [] \<and> ty \<noteq> [] \<and> st \<noteq> [] \<and> cr \<noteq> [] \<and> now \<noteq> [] \<and> au \<noteq> []
        then Inr (Some (stored_record (PList (map PInt xs)) ty st (int (length xs)) cr now au mn mx))
        else Inr None)"
proof -
  define els where "els = map (\<lambda>i. Elem ''el'' [] (Some (str_int i)) []) xs"
  define root where "root = Elem ''data'' [] None
         [Elem ''sequence'' [] None els,
          Elem ''metadata'' [] None
            [leaf ''type'' ty, leaf ''seq_type'' st, leaf ''len'' (str_int (int (length xs))),
             leaf ''el_type'' ''int'', leaf ''date_created'' cr, leaf ''date_modified'' now,
             leaf ''author'' au, leaf ''min'' (str_int mn), leaf ''max'' (str_int mx)]]"
  have fe: "filter (\<lambda>c. tag c = ''el'') els = els"
    by (simp add: els_def filter_map comp_def)
  have f1: "find [''sequence''] root = Some (Elem ''sequence'' [] None els)"
    "find [''metadata''] root \<noteq> None"
    "(case find [''metadata''] root of None \<Rightarrow> False | Some e \<Rightarrow> children e \<noteq> []) = True"
    by (simp_all add: root_def find_def sub_elems_def leaf_def)
  have ft: "find_text [''metadata'', ''type''] root = Inr (Some ty)"
    "find_text [''metadata'', ''seq_type''] root = Inr (Some st)"
    "find_text [''metadata'', ''len''] root = Inr (Some (str_int (int (length xs))))"
    "find_text [''metadata'', ''el_type''] root = Inr (Some ''int'')"
    "find_text [''metadata'', ''max''] root = Inr (Some (str_int mx))"
    "find_text [''metadata'', ''min''] root = Inr (Some (str_int mn))"
    "find_text [''metadata'', ''date_created''] root = Inr (Some cr)"
    "find_text [''metadata'', ''date_modified''] root = Inr (Some now)"
    "find_text [''metadata'', ''author''] root = Inr (Some au)"
    by (simp_all add: root_def find_text_def find_def sub_elems_def leaf_def)
  have fa: "findall [''sequence'', ''el''] root = els"
    by (simp add: root_def sub_elems_def fe concat_findall_nil)
  have v: "xml_validate_data root
      = Inr (xs \<noteq> [] \<and> ty \<noteq> [] \<and> st \<noteq> [] \<and> cr \<noteq> [] \<and> now \<noteq> [] \<and> au \<noteq> [])"
    by (auto simp: xml_validate_data_def elem_truthy_def text_truthy_def f1 ft bindE_def
        str_int_nonempty els_def)
  have l: "list_of_els els = Inr (map PInt xs)"
    unfolding els_def using assms(2) by (rule list_of_els_ints)
  show ?thesis
    unfolding els_def [symmetric] root_def [symmetric]
    using assms
    by (simp add: xml_decode_def v ft fa l bindE_def py_len_def int_of_text_def
        int_of_string_str_int opt_str_def stored_record_def del: findall.simps)
qed

text \<open>What is written for a list of integers, and what reading it back gives.\<close>

lemma serialised_ints:
  "serialised fmt now (PList (map PInt xs)) ty st cr au mn mx
     = (if list_all digits_ok xs \<and> digits_ok (int (length xs)) \<and> digits_ok mn \<and> digits_ok mx
        then Inr (if fmt = ''xml''
          then XmlDoc (Elem ''data'' [] None
             [Elem ''sequence'' [] None (map (\<lambda>i. Elem ''el'' [] (Some (str_int i)) []) xs),
              Elem ''metadata'' [] None
                [leaf ''type'' ty, leaf ''seq_type'' st, leaf ''len'' (str_int (int (length xs))),
                 leaf ''el_type'' ''int'', leaf ''date_created'' cr, leaf ''date_modified'' now,
                 leaf ''author'' au, leaf ''min'' (str_int mn), leaf ''max'' (str_int mx)]])
          else JsonDoc (stored_record (PList (map PInt xs)) ty st (int (length xs)) cr now au mn mx))
        else Inl ValueError)"
proof (cases "fmt = ''xml''")
  case True
  then show ?thesis by (simp add: serialised_def xml_encode_ints)
next
  case False
  have e: "json_encode now (PList (map PInt xs)) ty st cr au mn mx
      = Inr (stored_record (PList (map PInt xs)) ty st (int (length xs)) cr now au mn mx)"
    by (rule json_encode_record) (simp add: py_len_def bindE_def)
  show ?thesis
    using False
    by (auto simp: serialised_def e bindE_def json_dump_def json_value_record json_values_ints)
qed

lemma decode_serialised_ints:
  assumes "ty \<noteq> ''dict''"
    and "serialised fmt now (PList (map PInt xs)) ty st cr au mn mx = Inr c"
  shows "decode fmt c
    = Inr (if xs \<noteq> [] \<and> ty \<noteq> [] \<and> st \<noteq> [] \<and> au \<noteq> []
              \<and> (if fmt = ''xml'' then cr \<noteq> [] \<and> now \<noteq> [] else mx \<noteq> 0)
           then Some (stored_record (PList (map PInt xs)) ty st (int (length xs)) cr now au mn mx)
           else None)"
proof -
  have ok: "list_all digits_ok xs" "digits_ok (int (length xs))" "digits_ok mn" "digits_ok mx"
    using assms(2) by (auto simp: serialised_ints split: if_splits)
  show ?thesis
  proof (cases "fmt = ''xml''")
    case True
    then have "c = XmlDoc (Elem ''data'' [] None
             [Elem ''sequence'' [] None (map (\<lambda>i. Elem ''el'' [] (Some (str_int i)) []) xs),
              Elem ''metadata'' [] None
                [leaf ''type'' ty, leaf ''seq_type'' st, leaf ''len'' (str_int (int (length xs))),
                 leaf ''el_type'' ''int'', leaf ''date_created'' cr, leaf ''date_modified'' now,
                 leaf ''author'' au, leaf ''min'' (str_int mn), leaf ''max'' (str_int mx)]])"
      using assms(2) ok by (simp add: serialised_ints)
    then show ?thesis
      using True xml_decode_ints [OF assms(1) ok(1) ok(3) ok(4), of st cr now au]
      by (simp add: decode_def)
  next
    case False
    then have "c = JsonDoc (stored_record (PList (map PInt xs)) ty st (int (length xs)) cr now au mn mx)"
      using assms(2) ok by (simp add: serialised_ints)
    then show ?thesis
      using False ok by (auto simp: decode_def json_decode_record ints_ok_list_ints)
  qed
qed

text \<open>The write succeeds exactly when the record serialises, and then leaves its text.\<close>

lemma store_serialised:
  "store fmt now f s sq ty st cr au mn mx
     = (case serialised fmt now sq ty st cr au mn mx of
          Inr c \<Rightarrow> (rewrite fmt f c s, Inr ())
        | Inl e \<Rightarrow>
            (if fmt \<noteq> ''xml'' \<and> (\<exists>d. json_encode now sq ty st cr au mn mx = Inr d)
             then rewrite fmt f Malformed s else s, Inl e))"
  by (auto simp: store_def serialised_def bindE_def split: sum.splits)

section \<open>The Fibonacci terms\<close>

lemma fib_rounds_mono_step:
  "1 \<le> a \<Longrightarrow> a \<le> b \<Longrightarrow> fib_rounds k a b \<le> fib_rounds (Suc k) a b"
proof (induction k arbitrary: a b)
  case 0
  then show ?case by simp
next
  case (Suc k)
  have "fib_rounds k b (a + b) \<le> fib_rounds (Suc k) b (a + b)"
    using Suc.prems by (intro Suc.IH) simp_all
  then show ?case by simp
qed

lemma fib_rounds_strict_step:
  "1 \<le> a \<Longrightarrow> a \<le> b \<Longrightarrow> fib_rounds (Suc k) a b < fib_rounds (Suc (Suc k)) a b"
proof (induction k arbitrary: a b)
  case 0
  then show ?case by simp
next
  case (Suc k)
  have "fib_rounds (Suc k) b (a + b) < fib_rounds (Suc (Suc k)) b (a + b)"
    using Suc.prems by (intro Suc.IH) simp_all
  then show ?case by simp
qed

lemma fib_rounds_mono:
  assumes "1 \<le> a" "a \<le> b" "j \<le> k"
  shows "fib_rounds j a b \<le> fib_rounds k a b"
  using assms(3) fib_rounds_mono_step [OF assms(1,2)]
  by (rule lift_Suc_mono_le [where f = "\<lambda>k. fib_rounds k a b", rotated]) 

lemma fibonacci_increases:
  assumes "1 \<le> a" "a \<le> b" "3 \<le> n"
  shows "fibonacci a b (n - 1) < fibonacci a b n"
proof -
  define k where "k = nat (n - 3)"
  have k: "nat (n - 1) = Suc (Suc k)"
    using assms(3) by (simp add: k_def) linarith?
  have "nat (n - 1 - 1) = Suc k" using k by linarith
  then show ?thesis
    using fib_rounds_strict_step [OF assms(1,2), of k] k by (simp add: fibonacci_def)
qed

lemma mapE_as_int_ints: "mapE as_int (map PInt xs) = Inr xs"
  by (induction xs) simp_all

lemma py_max_ints: "xs \<noteq> [] \<Longrightarrow> py_max (PList (map PInt xs)) = Inr (Max (set xs))"
  by (simp add: py_max_def bindE_def mapE_as_int_ints)

lemma fib_sequence_max:
  assumes "1 \<le> a" "a \<le> b" "3 \<le> n"
  shows "Max (set (fib_sequence a b n)) = fibonacci a b n"
proof (rule Max_eqI)
  show "finite (set (fib_sequence a b n))" by simp
  have "n \<in> set [3..n]" using assms(3) by simp
  then show "fibonacci a b n \<in> set (fib_sequence a b n)"
    by (simp add: fib_sequence_def)
  fix y assume "y \<in> set (fib_sequence a b n)"
  then consider "y = a" | "y = b" | i where "3 \<le> i" "i \<le> n" "y = fibonacci a b i"
    by (auto simp: fib_sequence_def)
  then show "y \<le> fibonacci a b n"
  proof cases
    case 1
    have "fib_rounds 0 a b \<le> fib_rounds (nat (n - 1)) a b"
      by (rule fib_rounds_mono [OF assms(1,2)]) simp
    then show ?thesis using 1 by (simp add: fibonacci_def)
  next
    case 2
    have "fib_rounds (Suc 0) a b \<le> fib_rounds (nat (n - 1)) a b"
      by (rule fib_rounds_mono [OF assms(1,2)]) (use assms(3) in simp)
    then show ?thesis using 2 by (simp add: fibonacci_def)
  next
    case 3
    have "fib_rounds (nat (i - 1)) a b \<le> fib_rounds (nat (n - 1)) a b"
      by (rule fib_rounds_mono [OF assms(1,2)]) (use 3 in simp)
    then show ?thesis using 3 by (simp add: fibonacci_def)
  qed
qed

lemma fib_sequence_nonempty: "fib_sequence a b n \<noteq> []"
  by (simp add: fib_sequence_def)

lemma check_equal_record_other_max:
  "mx \<noteq> max_el \<Longrightarrow>
   check_equal_sequences g ''fibonacci''
     (Some (stored_record sq ty st n cr now au mn mx)) min_el max_el step = Inr False"
  by (simp add: check_equal_sequences_def stored_record_def bindE_def)

lemma check_equal_none: "check_equal_sequences g dt None a b c = Inr False"
  by (simp add: check_equal_sequences_def)

lemma cached_miss_by_check:
  "decode fmt (content f) = Inr data \<Longrightarrow> check_equal_sequences g dt data a b c = Inr False \<Longrightarrow>
   cached g fmt dt f a b c = Inr None"
  by (simp add: cached_def bindE_def)

section \<open>The generation calls when nothing is reused\<close>

lemma opened_state:
  assumes "supported fmt"
  shows "other_file fmt (snd (open_append fmt now (remove_unsupported_file fmt s))) = None"
    and "get_file fmt (snd (open_append fmt now (remove_unsupported_file fmt s)))
      = Some (case get_file fmt s of None \<Rightarrow> \<lparr>content = Empty, ctime = now\<rparr> | Some f \<Rightarrow> f)"
    and "fst (open_append fmt now (remove_unsupported_file fmt s))
      = (case get_file fmt s of None \<Rightarrow> \<lparr>content = Empty, ctime = now\<rparr> | Some f \<Rightarrow> f)"
proof -
  obtain f s2 where o: "open_append fmt now (remove_unsupported_file fmt s) = (f, s2)"
    by (cases "open_append fmt now (remove_unsupported_file fmt s)")
  show "other_file fmt (snd (open_append fmt now (remove_unsupported_file fmt s))) = None"
    using other_file_open [OF assms o] other_file_remove [OF assms] by (simp add: o)
  show "get_file fmt (snd (open_append fmt now (remove_unsupported_file fmt s)))
      = Some (case get_file fmt s of None \<Rightarrow> \<lparr>content = Empty, ctime = now\<rparr> | Some f \<Rightarrow> f)"
    using assms
    by (cases "get_file fmt s")
      (simp_all add: open_append_missing open_append_existing get_file_remove get_file_put)
  show "fst (open_append fmt now (remove_unsupported_file fmt s))
      = (case get_file fmt s of None \<Rightarrow> \<lparr>content = Empty, ctime = now\<rparr> | Some f \<Rightarrow> f)"
    using assms
    by (cases "get_file fmt s")
      (simp_all add: open_append_missing open_append_existing get_file_remove)
qed

lemma fib_hook_rejects:
  "k = SetGenerator \<or> k = DictGenerator \<Longrightarrow> gen_fibonacci_hook k xs = Inl FibonacciError"
  by auto

lemma fibonacci_rejected:
  assumes "supported fmt" "kind g = SetGenerator \<or> kind g = DictGenerator" "n < max_length g"
    and "miss g fmt ''fibonacci'' first (fibonacci first second (n - 1)) 0 s"
  shows "generate_fibonacci g fmt first second n now s
    = (snd (open_append fmt now (remove_unsupported_file fmt s)), Inl FibonacciError)"
proof -
  obtain f s2 where o: "open_append fmt now (remove_unsupported_file fmt s) = (f, s2)"
    by (cases "open_append fmt now (remove_unsupported_file fmt s)")
  have c: "cached g fmt ''fibonacci'' f first (fibonacci first second (n - 1)) 0 = Inr None"
    using miss_open [OF assms(1) assms(4) o] .
  show ?thesis
    using assms(1,3) fib_hook_rejects [OF assms(2)]
    by (simp add: generate_fibonacci_def Let_def check_seq_length_def o c bindE_def)
qed

lemma generate_fibonacci_fresh:
  assumes "supported fmt" "kind g = ListGenerator \<or> kind g = TupleGenerator"
    and "n < max_length g"
    and "miss g fmt ''fibonacci'' first (fibonacci first second (n - 1)) 0 s"
    and "open_append fmt now (remove_unsupported_file fmt s) = (f, s2)"
  shows "generate_fibonacci g fmt first second n now s
    = store fmt now f s2 (PList (map PInt (fib_sequence first second n))) (sequence_type (kind g))
        ''fibonacci'' (ctime f) (repr (kind g)) first (Max (set (fib_sequence first second n)))"
proof -
  have c: "cached g fmt ''fibonacci'' f first (fibonacci first second (n - 1)) 0 = Inr None"
    using miss_open [OF assms(1) assms(4) assms(5)] .
  have h: "gen_fibonacci_hook (kind g) (fib_sequence first second n)
      = Inr (PList (map PInt (fib_sequence first second n)))"
    using assms(2) by auto
  show ?thesis
    using assms(1,3)
    by (simp add: generate_fibonacci_def Let_def check_seq_length_def assms(5) c h bindE_def
        py_max_ints fib_sequence_nonempty)
qed

lemma generate_fibonacci_success:
  assumes "snd (generate_fibonacci g fmt first second n now s) = Inr ()"
  shows "supported fmt" "n < max_length g"
proof -
  show "n < max_length g"
    using assms by (auto simp: generate_fibonacci_def Let_def check_seq_length_def split: if_splits)
  then show "supported fmt"
    using assms by (auto simp: generate_fibonacci_def Let_def check_seq_length_def split: if_splits)
qed

lemma fib_2_3_5: "fib_sequence 2 3 5 = [2, 3, 5, 8, 13]" "fibonacci 2 3 4 = 8"
  "Max (set (fib_sequence 2 3 5)) = 13"
  by code_simp+

lemma small_strings:
  "str_int 2 = ''2''" "str_int 3 = ''3''" "str_int 5 = ''5''" "str_int 8 = ''8''"
  "str_int 13 = ''13''"
  by code_simp+

lemma fibonacci_list:
  assumes "supported fmt" "kind g = ListGenerator" "5 < max_length g"
    and "miss g fmt ''fibonacci'' 2 8 0 s"
  shows "generate_fibonacci g fmt 2 3 5 now s
    = (rewrite fmt (fst (open_append fmt now (remove_unsupported_file fmt s)))
         (if fmt = ''xml''
          then XmlDoc (Elem ''data'' [] None
                 [Elem ''sequence'' [] None
                    [leaf ''el'' ''2'', leaf ''el'' ''3'', leaf ''el'' ''5'', leaf ''el'' ''8'',
                     leaf ''el'' ''13''],
                  Elem ''metadata'' [] None
                    [leaf ''type'' ''list'', leaf ''seq_type'' ''fibonacci'', leaf ''len'' ''5'',
                     leaf ''el_type'' ''int'',
                     leaf ''date_created''
                       (ctime (fst (open_append fmt now (remove_unsupported_file fmt s)))),
                     leaf ''date_modified'' now, leaf ''author'' ''ListGenerator'',
                     leaf ''min'' ''2'', leaf ''max'' ''13'']])
          else JsonDoc (stored_record (PList [PInt 2, PInt 3, PInt 5, PInt 8, PInt 13]) ''list''
                 ''fibonacci'' 5 (ctime (fst (open_append fmt now (remove_unsupported_file fmt s))))
                 now ''ListGenerator'' 2 13))
         (snd (open_append fmt now (remove_unsupported_file fmt s))),
       Inr ())"
proof -
  obtain f s2 where o: "open_append fmt now (remove_unsupported_file fmt s) = (f, s2)"
    by (cases "open_append fmt now (remove_unsupported_file fmt s)")
  have m: "miss g fmt ''fibonacci'' 2 (fibonacci 2 3 (5 - 1)) 0 s"
    using assms(4) by (simp add: fib_2_3_5)
  have r: "generate_fibonacci g fmt 2 3 5 now s
    = store fmt now f s2 (PList (map PInt (fib_sequence 2 3 5))) (sequence_type (kind g))
        ''fibonacci'' (ctime f) (repr (kind g)) 2 (Max (set (fib_sequence 2 3 5)))"
    by (rule generate_fibonacci_fresh [OF assms(1) _ assms(3) m o]) (simp add: assms(2))
  have d: "list_all digits_ok [2, 3, 5, 8, 13]" "digits_ok 5" "digits_ok 2" "digits_ok 13"
    by (simp_all add: small_digits_ok)
  have ser: "serialised fmt now (PList (map PInt [2, 3, 5, 8, 13])) ''list'' ''fibonacci'' (ctime f)
        ''ListGenerator'' 2 13
      = Inr (if fmt = ''xml''
          then XmlDoc (Elem ''data'' [] None
                 [Elem ''sequence'' [] None
                    [leaf ''el'' ''2'', leaf ''el'' ''3'', leaf ''el'' ''5'', leaf ''el'' ''8'',
                     leaf ''el'' ''13''],
                  Elem ''metadata'' [] None
                    [leaf ''type'' ''list'', leaf ''seq_type'' ''fibonacci'', leaf ''len'' ''5'',
                     leaf ''el_type'' ''int'', leaf ''date_created'' (ctime f),
                     leaf ''date_modified'' now, leaf ''author'' ''ListGenerator'',
                     leaf ''min'' ''2'', leaf ''max'' ''13'']])
          else JsonDoc (stored_record (PList [PInt 2, PInt 3, PInt 5, PInt 8, PInt 13]) ''list''
                 ''fibonacci'' 5 (ctime f) now ''ListGenerator'' 2 13))"
    using d serialised_ints [of fmt now "[2, 3, 5, 8, 13]" "''list''" "''fibonacci''" "ctime f"
        "''ListGenerator''" 2 13]
    by (simp add: small_strings leaf_def)
  show ?thesis
    unfolding r o fst_conv snd_conv
    using ser by (simp add: store_serialised fib_2_3_5 assms(2))
qed

section \<open>The generation call when the stored record is reused\<close>






section \<open>The range \<open>68, 121, 3\<close> requested twice\<close>










section \<open>The outcomes stay within what is written out\<close>

text \<open>
  \<open>Unmodelled\<close> stands for \<^verbatim>\<open>str\<close> of a container. The markup codec prints the elements of
  a sequence, and the sequences it is given hold integers or are dicts with string keys,
  whether they were computed or reused from a markup file; so no call ends there.
\<close>

lemma bindE_modelled:
  "m \<noteq> Inl Unmodelled \<Longrightarrow> (\<And>x. m = Inr x \<Longrightarrow> f x \<noteq> Inl Unmodelled)
    \<Longrightarrow> bindE m f \<noteq> Inl Unmodelled"
  by (cases m) (simp_all add: bindE_def)

lemma mapE_modelled:
  "(\<And>x. x \<in> set xs \<Longrightarrow> f x \<noteq> Inl Unmodelled) \<Longrightarrow> mapE f xs \<noteq> Inl Unmodelled"
  by (induction xs) (auto split: sum.splits)

lemma all_true_modelled:
  "(\<And>m. m \<in> set ms \<Longrightarrow> m \<noteq> Inl Unmodelled) \<Longrightarrow> all_true ms \<noteq> Inl Unmodelled"
  by (induction ms) (auto split: sum.splits)

lemma int_of_string_modelled: "int_of_string t \<noteq> Inl Unmodelled"
  by (simp add: int_of_string_def split: list.splits option.splits)

lemma int_of_text_modelled: "int_of_text t \<noteq> Inl Unmodelled"
  by (simp add: int_of_text_def int_of_string_modelled split: option.splits)

lemma str_checked_modelled: "str_checked i \<noteq> Inl Unmodelled"
  by (simp add: str_checked_def)

lemma py_iter_modelled: "py_iter v \<noteq> Inl Unmodelled"
  by (cases v) simp_all

lemma py_len_modelled: "py_len v \<noteq> Inl Unmodelled"
  by (simp add: py_len_def bindE_modelled py_iter_modelled)

lemma py_item_modelled: "py_item v k \<noteq> Inl Unmodelled"
  by (cases v) (simp_all split: option.splits)

lemma py_get_modelled: "py_get v k \<noteq> Inl Unmodelled"
  by (cases v) (simp_all split: option.splits)

lemma as_int_modelled: "as_int v \<noteq> Inl Unmodelled"
  by (cases v) simp_all

lemma py_sub_modelled: "py_sub a b \<noteq> Inl Unmodelled"
  using as_int_modelled [of a] as_int_modelled [of b]
  by (cases "as_int a"; cases "as_int b") (auto simp: py_sub_def)

lemma py_floordiv_modelled: "py_floordiv a b \<noteq> Inl Unmodelled"
  by (simp add: py_floordiv_def)

lemma py_mod_modelled: "py_mod a b \<noteq> Inl Unmodelled"
  by (simp add: py_mod_def)

lemma find_text_modelled: "find_text p e \<noteq> Inl Unmodelled"
  by (simp add: find_text_def split: option.splits)

lemma text_truthy_modelled: "text_truthy p e \<noteq> Inl Unmodelled"
  by (simp add: text_truthy_def bindE_modelled find_text_modelled)

lemma xml_validate_data_modelled: "xml_validate_data root \<noteq> Inl Unmodelled"
  unfolding xml_validate_data_def
  by (rule all_true_modelled) (auto simp: elem_truthy_def text_truthy_modelled [symmetric])

lemma dict_of_els_modelled: "dict_of_els acc els \<noteq> Inl Unmodelled"
  by (induction els arbitrary: acc) (auto simp: int_of_text_modelled split: option.splits sum.splits)

lemma list_of_els_modelled: "list_of_els els \<noteq> Inl Unmodelled"
  unfolding list_of_els_def
  by (rule mapE_modelled) (simp add: bindE_modelled int_of_text_modelled)

lemma xml_decode_modelled: "xml_decode c \<noteq> Inl Unmodelled"
proof (cases c)
  case (XmlDoc root)
  have "(if \<not> ok then Inr None else bindE m f) \<noteq> Inl Unmodelled"
    if "m \<noteq> Inl Unmodelled" "\<And>x. f x \<noteq> Inl Unmodelled"
    for ok and m :: "error + string option" and f :: "string option \<Rightarrow> error + pyval option"
    using that by (simp add: bindE_modelled)
  then show ?thesis
    unfolding xml_decode_def XmlDoc content.case
    by (intro bindE_modelled xml_validate_data_modelled find_text_modelled py_len_modelled
          int_of_text_modelled)
       (simp_all add: dict_of_els_modelled list_of_els_modelled bindE_modelled
          find_text_modelled py_len_modelled int_of_text_modelled)
qed (simp_all add: xml_decode_def)

lemma bindE_unmodelledD:
  "bindE m f = Inl Unmodelled \<Longrightarrow> m = Inl Unmodelled \<or> (\<exists>x. m = Inr x \<and> f x = Inl Unmodelled)"
  by (cases m) (simp_all add: bindE_def)

lemma mapE_unmodelledD:
  "mapE f xs = Inl Unmodelled \<Longrightarrow> \<exists>x \<in> set xs. f x = Inl Unmodelled"
  by (induction xs) (auto split: sum.splits)

lemma get_truthy_modelled: "m \<noteq> Inl Unmodelled \<Longrightarrow> get_truthy m \<noteq> Inl Unmodelled"
  by (simp add: get_truthy_def bindE_modelled)

lemma has_key_modelled: "has_key k v \<noteq> Inl Unmodelled"
  by (cases v) simp_all

lemma meta_get_modelled: "meta_get d k \<noteq> Inl Unmodelled"
  by (simp add: meta_get_def bindE_modelled py_get_modelled)

lemma json_validate_data_modelled: "json_validate_data d \<noteq> Inl Unmodelled"
  unfolding json_validate_data_def
  by (rule all_true_modelled)
     (auto simp: get_truthy_modelled [symmetric] py_get_modelled meta_get_modelled
        bindE_modelled [symmetric] has_key_modelled)

lemma json_decode_modelled: "json_decode c \<noteq> Inl Unmodelled"
  by (cases c) (simp_all add: json_decode_def bindE_modelled json_validate_data_modelled)

lemma decode_modelled: "decode fmt c \<noteq> Inl Unmodelled"
  by (simp add: decode_def xml_decode_modelled json_decode_modelled)

lemma check_equal_sequences_modelled:
  "check_equal_sequences g data_type data min_el max_el step \<noteq> Inl Unmodelled"
proof (cases data)
  case (Some d)
  show ?thesis
    unfolding check_equal_sequences_def Some option.case
    by (intro bindE_modelled py_item_modelled)
       (simp_all add: bindE_modelled py_item_modelled py_sub_modelled py_floordiv_modelled)
qed (simp add: check_equal_sequences_def)

lemma cached_modelled: "cached g fmt data_type f min_el max_el step \<noteq> Inl Unmodelled"
  unfolding cached_def
  by (auto dest!: bindE_unmodelledD
        simp: py_item_modelled decode_modelled check_equal_sequences_modelled
        split: option.splits if_splits)

lemma check_seq_length_modelled: "check_seq_length g n \<noteq> Inl Unmodelled"
  by (simp add: check_seq_length_def)

lemma custom_range_modelled: "custom_range g start0 stop0 step \<noteq> Inl Unmodelled"
  using py_mod_modelled check_seq_length_modelled
  by (auto simp: custom_range_def Let_def split: option.splits sum.splits if_splits)

lemma max_in_range_modelled: "max_in_range start0 stop0 step \<noteq> Inl Unmodelled"
  using py_mod_modelled
  by (auto simp: max_in_range_def Let_def split: option.splits sum.splits if_splits)

lemma create_sequence_modelled: "create_sequence g start stop step \<noteq> Inl Unmodelled"
  unfolding create_sequence_def
  by (auto dest!: bindE_unmodelledD mapE_unmodelledD
        simp: custom_range_modelled str_checked_modelled split: gen_kind.splits)

lemma gen_fibonacci_hook_modelled: "gen_fibonacci_hook k xs \<noteq> Inl Unmodelled"
  by (cases k) simp_all

lemma py_max_modelled: "py_max v \<noteq> Inl Unmodelled"
  unfolding py_max_def
  by (intro bindE_modelled py_iter_modelled)
     (simp add: int_of_string_modelled split: sum.splits)

lemma json_value_modelled:
  "json_value v \<noteq> Inl Unmodelled"
  "json_values vs \<noteq> Inl Unmodelled"
  "json_items kvs \<noteq> Inl Unmodelled"
  by (induction v and vs and kvs rule: json_value_json_values_json_items.induct)
     (auto split: sum.splits)

lemma json_dump_modelled: "json_dump d \<noteq> Inl Unmodelled"
  by (simp add: json_dump_def bindE_modelled json_value_modelled)

lemma json_encode_modelled:
  "json_encode now sq s_type seq_type cr_time author min_el max_el \<noteq> Inl Unmodelled"
  by (simp add: json_encode_def bindE_modelled py_len_modelled)

text \<open>A sequence whose elements \<^verbatim>\<open>str\<close> prints.\<close>

lemma xml_encode_modelled:
  assumes "\<And>items i. py_iter sq = Inr items \<Longrightarrow> i \<in> set items \<Longrightarrow> py_str i \<noteq> Inl Unmodelled"
  shows "xml_encode now sq s_type seq_type cr_time author min_el max_el \<noteq> Inl Unmodelled"
  unfolding xml_encode_def xml_el_def
  using assms
  by (auto dest!: bindE_unmodelledD mapE_unmodelledD
        simp: py_iter_modelled str_checked_modelled)

lemma store_modelled:
  assumes "\<And>items i. fmt = ''xml'' \<Longrightarrow> py_iter sq = Inr items \<Longrightarrow> i \<in> set items
    \<Longrightarrow> py_str i \<noteq> Inl Unmodelled"
  shows "snd (store fmt now f s sq s_type seq_type cr_time author min_el max_el) \<noteq> Inl Unmodelled"
proof (cases "fmt = ''xml''")
  case True
  then show ?thesis
    using xml_encode_modelled [of sq now s_type seq_type cr_time author min_el max_el] assms
    by (auto simp: store_def split: sum.splits)
next
  case False
  then show ?thesis
    using json_encode_modelled [of now sq s_type seq_type cr_time author min_el max_el]
      json_dump_modelled
    by (auto simp: store_def split: sum.splits)
qed

lemma bindE_InrD: "bindE m f = Inr y \<Longrightarrow> \<exists>x. m = Inr x \<and> f x = Inr y"
  by (cases m) (simp_all add: bindE_def)

lemma mapE_InrD:
  "mapE f xs = Inr ys \<Longrightarrow> y \<in> set ys \<Longrightarrow> \<exists>x \<in> set xs. f x = Inr y"
  by (induction xs arbitrary: ys) (auto split: sum.splits)

lemma list_of_els_printed:
  "list_of_els els = Inr xs \<Longrightarrow> i \<in> set xs \<Longrightarrow> py_str i \<noteq> Inl Unmodelled"
  unfolding list_of_els_def
  by (auto dest!: mapE_InrD [where y = i] bindE_InrD simp: str_checked_modelled)

lemma dict_keys_printed:
  "py_iter (PDict kvs) = Inr items \<Longrightarrow> i \<in> set items \<Longrightarrow> py_str i \<noteq> Inl Unmodelled"
  by auto

lemma ints_printed:
  "py_iter (PList (map PInt xs)) = Inr items \<Longrightarrow> i \<in> set items \<Longrightarrow> py_str i \<noteq> Inl Unmodelled"
  by (auto simp: str_checked_modelled)

lemma xml_decode_printed:
  assumes "xml_decode c = Inr (Some d)" "py_item d ''sequence'' = Inr sq"
    "py_iter sq = Inr items" "i \<in> set items"
  shows "py_str i \<noteq> Inl Unmodelled"
proof (cases c)
  case (XmlDoc root)
  from assms(1) obtain sq_type seq where
    s: "(if sq_type = Some ''dict''
         then bindE (dict_of_els [] (findall [''sequence'', ''el''] root)) (\<lambda>kvs. Inr (PDict kvs))
         else bindE (list_of_els (findall [''sequence'', ''el''] root)) (\<lambda>xs. Inr (PList xs)))
        = Inr seq"
    and d: "\<exists>m. d = PDict [(''sequence'', seq), (''metadata'', m)]"
    unfolding xml_decode_def XmlDoc content.case
    by (auto dest!: bindE_InrD split: if_splits)
  from d assms(2) have sq: "sq = seq" by auto
  show ?thesis
  proof (cases "sq_type = Some ''dict''")
    case True
    then obtain kvs where "sq = PDict kvs" using s sq by (auto dest!: bindE_InrD)
    then show ?thesis using assms(3,4) dict_keys_printed by blast
  next
    case False
    then obtain xs where "list_of_els (findall [''sequence'', ''el''] root) = Inr xs" "sq = PList xs"
      using s sq by (auto dest!: bindE_InrD)
    then show ?thesis using assms(3,4) list_of_els_printed by auto
  qed
qed (use assms(1) in \<open>simp_all add: xml_decode_def\<close>)

lemma cached_printed:
  assumes "cached g ''xml'' dt f a b c = Inr (Some sq)" "py_iter sq = Inr items" "i \<in> set items"
  shows "py_str i \<noteq> Inl Unmodelled"
proof -
  from assms(1) obtain d where "xml_decode (content f) = Inr (Some d)"
    "py_item d ''sequence'' = Inr sq"
    unfolding cached_def decode_def
    by (auto dest!: bindE_InrD split: if_splits option.splits)
  then show ?thesis using xml_decode_printed assms(2,3) by blast
qed

lemma create_sequence_printed:
  assumes "create_sequence g start stop step = Inr sq" "py_iter sq = Inr items" "i \<in> set items"
  shows "py_str i \<noteq> Inl Unmodelled"
proof (cases "kind g = DictGenerator")
  case True
  then obtain kvs where "sq = PDict kvs"
    using assms(1) unfolding create_sequence_def by (auto dest!: bindE_InrD)
  then show ?thesis using assms(2,3) dict_keys_printed by blast
next
  case False
  then obtain xs where "sq = PList (map PInt xs)"
    using assms(1) unfolding create_sequence_def
    by (auto dest!: bindE_InrD split: gen_kind.splits)
  then show ?thesis using assms(2,3) ints_printed by blast
qed

lemma gen_fibonacci_hook_printed:
  assumes "gen_fibonacci_hook k xs = Inr sq" "py_iter sq = Inr items" "i \<in> set items"
  shows "py_str i \<noteq> Inl Unmodelled"
proof -
  have "sq = PList (map PInt xs)" using assms(1) by (cases k) simp_all
  then show ?thesis using assms(2,3) ints_printed by blast
qed

text \<open>No call ends in an operation the model leaves out.\<close>

lemma generate_sequence_modelled:
  "snd (generate_sequence g fmt start0 stop0 step now s) \<noteq> Inl Unmodelled"
proof (cases "supported fmt")
  case False
  then show ?thesis by (simp add: generate_sequence_def Let_def)
next
  case True
  show ?thesis
  proof (cases "max_in_range start0 stop0 step")
    case (Inl e)
    then show ?thesis
      using max_in_range_modelled [of start0 stop0 step] True
      by (simp add: generate_sequence_def Let_def)
  next
    case (Inr m)
    obtain start stop where
      ss: "(case stop0 of None \<Rightarrow> (0, start0) | Some sp \<Rightarrow> (start0, sp)) = (start, stop)"
      by (cases stop0) auto
    obtain f s2 where o: "open_append fmt now (remove_unsupported_file fmt s) = (f, s2)"
      by (cases "open_append fmt now (remove_unsupported_file fmt s)")
    define r where "r = bindE (cached g fmt ''range'' f start m step) (\<lambda>hit.
                       case hit of Some sq \<Rightarrow> Inr sq
                       | None \<Rightarrow> create_sequence g start (Some stop) step)"
    have g: "generate_sequence g fmt start0 stop0 step now s
        = (case r of Inl e \<Rightarrow> (s2, Inl e)
           | Inr sequence \<Rightarrow> store fmt now f s2 sequence (sequence_type (kind g)) ''range''
               (ctime f) (repr (kind g)) start m)"
      using True Inr o ss by (simp add: generate_sequence_def Let_def r_def)
    show ?thesis
    proof (cases r)
      case (Inl e)
      have "r \<noteq> Inl Unmodelled"
        unfolding r_def
        by (auto dest!: bindE_unmodelledD simp: cached_modelled create_sequence_modelled
            split: option.splits)
      then show ?thesis using Inl by (simp add: g)
    next
      case (Inr sq)
      have p: "py_str i \<noteq> Inl Unmodelled"
        if "fmt = ''xml''" "py_iter sq = Inr items" "i \<in> set items" for items i
        using Inr that cached_printed create_sequence_printed
        unfolding r_def by (auto dest!: bindE_InrD split: option.splits)
      show ?thesis
        unfolding g Inr sum.case by (rule store_modelled) (rule p)
    qed
  qed
qed

lemma generate_fibonacci_modelled:
  "snd (generate_fibonacci g fmt first second n now s) \<noteq> Inl Unmodelled"
proof (cases "check_seq_length g n")
  case (Inl e)
  then show ?thesis
    using check_seq_length_modelled [of g n] by (simp add: generate_fibonacci_def Let_def)
next
  case c: (Inr ok)
  show ?thesis
  proof (cases "supported fmt")
    case False
    then show ?thesis using c by (simp add: generate_fibonacci_def Let_def)
  next
    case True
    obtain f s2 where o: "open_append fmt now (remove_unsupported_file fmt s) = (f, s2)"
      by (cases "open_append fmt now (remove_unsupported_file fmt s)")
    define r where "r = bindE (cached g fmt ''fibonacci'' f first (fibonacci first second (n - 1)) 0)
                     (\<lambda>hit. case hit of Some sq \<Rightarrow> Inr sq
                       | None \<Rightarrow> gen_fibonacci_hook (kind g) (fib_sequence first second n))"
    have g: "generate_fibonacci g fmt first second n now s
        = (case r of Inl e \<Rightarrow> (s2, Inl e)
           | Inr sequence \<Rightarrow>
              (case py_max sequence of Inl e \<Rightarrow> (s2, Inl e)
               | Inr mx \<Rightarrow> store fmt now f s2 sequence (sequence_type (kind g)) ''fibonacci''
                   (ctime f) (repr (kind g)) first mx))"
      using True c o by (simp add: generate_fibonacci_def Let_def r_def)
    show ?thesis
    proof (cases r)
      case (Inl e)
      have "r \<noteq> Inl Unmodelled"
        unfolding r_def
        by (auto dest!: bindE_unmodelledD simp: cached_modelled gen_fibonacci_hook_modelled
            split: option.splits)
      then show ?thesis using Inl by (simp add: g)
    next
      case (Inr sq)
      have p: "py_str i \<noteq> Inl Unmodelled"
        if "fmt = ''xml''" "py_iter sq = Inr items" "i \<in> set items" for items i
        using Inr that cached_printed gen_fibonacci_hook_printed
        unfolding r_def by (auto dest!: bindE_InrD split: option.splits)
      show ?thesis
      proof (cases "py_max sq")
        case (Inl e)
        then show ?thesis using py_max_modelled [of sq] by (simp add: g Inr)
      next
        case mx: (Inr mx)
        show ?thesis
          unfolding g Inr mx sum.case by (rule store_modelled) (rule p)
      qed
    qed
  qed
qed

lemma py_gt_modelled: "py_gt v n \<noteq> Inl Unmodelled"
  by (simp add: py_gt_def bindE_modelled as_int_modelled)

lemma base_get_sequence_modelled: "base_get_sequence g s \<noteq> Inl Unmodelled"
  unfolding base_get_sequence_def
  by (auto dest!: bindE_unmodelledD
        simp: decode_modelled py_item_modelled py_gt_modelled
        split: option.splits if_splits)

lemma get_sequence_modelled: "snd (get_sequence g s) \<noteq> Inl Unmodelled"
  unfolding get_sequence_def
  by (auto dest!: bindE_unmodelledD
        simp: base_get_sequence_modelled py_iter_modelled split: gen_kind.splits if_splits)

section \<open>The claims\<close>



text \<open>
  C3 (step implied by the stored record). The spec takes the implied step to be \<open>0\<close>
  when the stored length is \<open>1\<close>. The check divides by \<open>len - 1\<close> whenever the request is
  a range request, so a stored record of length \<open>1\<close> makes it raise \<^verbatim>\<open>ZeroDivisionError\<close>:
  the same one-element range requested twice in the markup format succeeds the first time
  and fails the second time, leaving the file as the first call wrote it.
\<close>

theorem C3_single_element_record_divides_by_zero:
  "(let g = \<lparr>kind = ListGenerator, max_length = 100\<rparr>;
        (s1, r1) = generate_sequence g ''xml'' 1 None 1 ''01.01.2024 10:00'' no_files;
        (s2, r2) = generate_sequence g ''xml'' 1 None 1 ''01.01.2024 10:01'' s1
    in (r1, r2, s2 = s1,
        bindE (decode ''xml'' (content (the (xml_file s1))))
          (\<lambda>data. check_equal_sequences g ''range'' data 0 0 1)))
   = (Inr (), Inl ZeroDivisionError, True, Inl ZeroDivisionError)"
  by code_simp

text \<open>
  C9 (empty state of \<^verbatim>\<open>get_sequence\<close>). With no file on disk the dict generator returns
  the empty list of the base method, not an empty mapping: unlike the tuple and set
  generators it does not wrap the inherited result.
\<close>

theorem C9_dict_generator_returns_empty_list:
  "snd (get_sequence \<lparr>kind = DictGenerator, max_length = 100\<rparr> no_files) = Inr (PList [])
   \<and> snd (get_sequence \<lparr>kind = ListGenerator, max_length = 100\<rparr> no_files) = Inr (PList [])
   \<and> snd (get_sequence \<lparr>kind = TupleGenerator, max_length = 100\<rparr> no_files) = Inr (PTuple [])
   \<and> snd (get_sequence \<lparr>kind = SetGenerator, max_length = 100\<rparr> no_files) = Inr (PSet [])"
  by code_simp

text \<open>
  C2 (round trip). The record that \<^verbatim>\<open>generate_sequence('json', 1)\<close> writes has the
  sequence \<open>[0]\<close> and \<open>max = 0\<close>. The record-notation validator tests \<^verbatim>\<open>max\<close> by its
  truth value, so decoding the encoded record yields nothing and \<^verbatim>\<open>get_sequence\<close>
  rejects the file; the markup codec decodes the same record.
\<close>

theorem C2_json_round_trip_loses_zero_max:
  "bindE (bindE (json_encode ''01.01.2024 10:05'' (PList [PInt 0]) ''list'' ''range''
            ''01.01.2024 10:00'' ''ListGenerator'' 0 0) json_dump) json_decode = Inr None
   \<and> bindE (xml_encode ''01.01.2024 10:05'' (PList [PInt 0]) ''list'' ''range''
            ''01.01.2024 10:00'' ''ListGenerator'' 0 0) xml_decode
       = Inr (Some (PDict
           [(''sequence'', PList [PInt 0]),
            (''metadata'', PDict
               [(''type'', PStr ''list''), (''seq_type'', PStr ''range''), (''len'', PInt 1),
                (''el_type'', PStr ''int''), (''date_created'', PStr ''01.01.2024 10:00''),
                (''date_modified'', PStr ''01.01.2024 10:05''),
                (''author'', PStr ''ListGenerator''), (''min'', PInt 0), (''max'', PInt 0)])]))
   \<and> (let g = \<lparr>kind = ListGenerator, max_length = 100\<rparr>;
            (s1, r1) = generate_sequence g ''json'' 1 None 1 ''01.01.2024 10:00'' no_files
        in (s1, r1, snd (get_sequence g s1)))
       = (\<lparr>json_file = Some \<lparr>content = JsonDoc (PDict
            [(''sequence'', PList [PInt 0]),
             (''metadata'', PDict
                [(''type'', PStr ''list''), (''seq_type'', PStr ''range''), (''len'', PInt 1),
                 (''el_type'', PStr ''int''), (''date_created'', PStr ''01.01.2024 10:00''),
                 (''date_modified'', PStr ''01.01.2024 10:00''),
                 (''author'', PStr ''ListGenerator''), (''min'', PInt 0), (''max'', PInt 0)])]),
             ctime = ''01.01.2024 10:00''\<rparr>, xml_file = None\<rparr>,
          Inr (), Inl InvalidValueError)"
  by code_simp

text \<open>
  C7 (decode never raises). A markup document whose metadata lacks \<^verbatim>\<open>type\<close> makes the
  validator read \<^verbatim>\<open>.text\<close> of \<^verbatim>\<open>None\<close>, and a record-notation document that is an array has
  no \<^verbatim>\<open>get\<close>: both decoders raise \<^verbatim>\<open>AttributeError\<close>. A record-notation document without
  the two dates is returned as a record; a markup document without \<^verbatim>\<open>min\<close> passes
  validation and then raises. Bytes that do not parse do yield nothing.
\<close>

theorem C7_decode_raises_on_incomplete_documents:
  "xml_decode (XmlDoc (Elem ''data'' [] None
        [Elem ''sequence'' [] None [leaf ''el'' ''1''],
         Elem ''metadata'' [] None [leaf ''seq_type'' ''range'']])) = Inl AttributeError
   \<and> json_decode (JsonDoc (PList [PInt 1])) = Inl AttributeError
   \<and> json_decode (JsonDoc (PDict
        [(''sequence'', PList [PInt 1]),
         (''metadata'', PDict
            [(''type'', PStr ''list''), (''seq_type'', PStr ''range''), (''len'', PInt 1),
             (''el_type'', PStr ''int''), (''author'', PStr ''ListGenerator''),
             (''min'', PInt 1), (''max'', PInt 1)])]))
       = Inr (Some (PDict
        [(''sequence'', PList [PInt 1]),
         (''metadata'', PDict
            [(''type'', PStr ''list''), (''seq_type'', PStr ''range''), (''len'', PInt 1),
             (''el_type'', PStr ''int''), (''author'', PStr ''ListGenerator''),
             (''min'', PInt 1), (''max'', PInt 1)])]))
   \<and> xml_decode (XmlDoc (Elem ''data'' [] None
        [Elem ''sequence'' [] None [leaf ''el'' ''1''],
         Elem ''metadata'' [] None
           [leaf ''type'' ''list'', leaf ''seq_type'' ''range'', leaf ''len'' ''1'',
            leaf ''el_type'' ''int'', leaf ''date_created'' ''01.01.2024 10:00'',
            leaf ''date_modified'' ''01.01.2024 10:00'', leaf ''author'' ''ListGenerator'',
            leaf ''max'' ''1'']])) = Inl AttributeError
   \<and> xml_decode Malformed = Inr None \<and> json_decode Malformed = Inr None"
  by code_simp




text \<open>
  C4 (range boundary). The claim holds for the requests the error messages of
  \<^verbatim>\<open>_custom_range\<close> describe (stop greater than start, step greater than zero), see
  \<open>range_elems_max\<close>, and the example \<open>68, 121, 3\<close> gives the eighteen values with
  \<open>max = 119\<close>. But the check is \<^verbatim>\<open>start > stop\<close>, so \<open>5, 5, 1\<close> is accepted: nothing is
  emitted, the record written has an empty sequence with \<open>min = 5\<close> and \<open>max = 4\<close>, and
  \<^verbatim>\<open>get_sequence\<close> then rejects the file. Likewise the check is \<^verbatim>\<open>step < 0\<close>, so the
  step \<open>0\<close> is accepted and the computation of the greatest element divides by it.
\<close>

theorem C4_empty_range_records_max:
  "custom_range \<lparr>kind = ListGenerator, max_length = 100\<rparr> 5 (Some 5) 1 = Inr []
   \<and> max_in_range 5 (Some 5) 1 = Inr 4
   \<and> generate_sequence \<lparr>kind = ListGenerator, max_length = 100\<rparr> ''json'' 0 (Some 5) 0
        ''01.01.2024 10:00'' no_files = (no_files, Inl ZeroDivisionError)
   \<and> (let g = \<lparr>kind = ListGenerator, max_length = 100\<rparr>;
           (s1, r1) = generate_sequence g ''json'' 5 (Some 5) 1 ''01.01.2024 10:00'' no_files
       in (s1, r1, snd (get_sequence g s1)))
      = (\<lparr>json_file = Some \<lparr>content = JsonDoc (PDict
            [(''sequence'', PList []),
             (''metadata'', PDict
                [(''type'', PStr ''list''), (''seq_type'', PStr ''range''), (''len'', PInt 0),
                 (''el_type'', PStr ''int''), (''date_created'', PStr ''01.01.2024 10:00''),
                 (''date_modified'', PStr ''01.01.2024 10:00''),
                 (''author'', PStr ''ListGenerator''), (''min'', PInt 5), (''max'', PInt 4)])]),
           ctime = ''01.01.2024 10:00''\<rparr>, xml_file = None\<rparr>,
         Inr (), Inl InvalidValueError)
   \<and> generate_sequence \<lparr>kind = ListGenerator, max_length = 100\<rparr> ''json'' 68 (Some 121) 3
        ''01.01.2024 10:00'' no_files
      = (\<lparr>json_file = Some \<lparr>content = JsonDoc (PDict
            [(''sequence'', PList (map PInt
                [68, 71, 74, 77, 80, 83, 86, 89, 92, 95, 98, 101, 104, 107, 110, 113, 116, 119])),
             (''metadata'', PDict
                [(''type'', PStr ''list''), (''seq_type'', PStr ''range''), (''len'', PInt 18),
                 (''el_type'', PStr ''int''), (''date_created'', PStr ''01.01.2024 10:00''),
                 (''date_modified'', PStr ''01.01.2024 10:00''),
                 (''author'', PStr ''ListGenerator''), (''min'', PInt 68), (''max'', PInt 119)])]),
           ctime = ''01.01.2024 10:00''\<rparr>, xml_file = None\<rparr>, Inr ())"
  by code_simp

text \<open>
  C6 (length guard). With limit 10 and no file on disk the call for \<open>0, 50\<close> fails with
  the length error that carries the limit. But the count is checked only where the
  values are produced: once a generator with limit 100 has stored the same range, the
  call with limit 10 reuses the fifty stored values and succeeds, although
  \<^verbatim>\<open>get_sequence\<close> with limit 10 refuses that file and \<^verbatim>\<open>generate_fibonacci\<close> checks the
  length before it looks at the file.
\<close>

theorem C6_cache_hit_skips_length_guard:
  "generate_sequence \<lparr>kind = ListGenerator, max_length = 10\<rparr> ''json'' 0 (Some 50) 1
     ''01.01.2024 10:01'' no_files
   = (\<lparr>json_file = Some \<lparr>content = Empty, ctime = ''01.01.2024 10:01''\<rparr>, xml_file = None\<rparr>,
      Inl (InvalidSequenceLength 10))
   \<and> (let s1 = fst (generate_sequence \<lparr>kind = ListGenerator, max_length = 100\<rparr> ''json''
                      0 (Some 50) 1 ''01.01.2024 10:00'' no_files);
           g = \<lparr>kind = ListGenerator, max_length = 10\<rparr>;
           (s2, r2) = generate_sequence g ''json'' 0 (Some 50) 1 ''01.01.2024 10:01'' s1
       in (r2,
           bindE (bindE (decode ''json'' (content (the (json_file s2))))
                    (\<lambda>data. py_item (the data) ''sequence'')) py_len,
           snd (get_sequence g s2),
           snd (generate_fibonacci g ''json'' 0 1 50 ''01.01.2024 10:02'' s2)))
      = (Inr (), Inr 50, Inl (InvalidSequenceLength 10), Inl (InvalidSequenceLength 10))"
  by code_simp

text \<open>
  C5 (Fibonacci rejection), as the claim states it: a set or dict generator fails at once
  with the Fibonacci error and writes nothing. The length check comes first and raises
  its own error, an unsupported format raises the invalid-value error, a target file whose
  lookup raises passes that error on, and when the target file holds a set-typed
  Fibonacci record with the expected \<open>min\<close> and \<open>max\<close> the call succeeds and rewrites it.
\<close>

theorem C5_set_generator_other_outcomes:
  "generate_fibonacci \<lparr>kind = SetGenerator, max_length = 5\<rparr> ''json'' 2 3 5
     ''01.01.2024 10:00'' no_files = (no_files, Inl (InvalidSequenceLength 5))
   \<and> generate_fibonacci \<lparr>kind = SetGenerator, max_length = 100\<rparr> ''yaml'' 2 3 5
        ''01.01.2024 10:00'' no_files = (no_files, Inl InvalidValueError)
   \<and> generate_fibonacci \<lparr>kind = SetGenerator, max_length = 100\<rparr> ''json'' 2 3 5
        ''01.01.2024 10:07''
        \<lparr>json_file = Some \<lparr>content = JsonDoc (PList [PInt 1]), ctime = ''01.01.2024 10:00''\<rparr>,
         xml_file = None\<rparr>
      = (\<lparr>json_file = Some \<lparr>content = JsonDoc (PList [PInt 1]), ctime = ''01.01.2024 10:00''\<rparr>,
          xml_file = None\<rparr>, Inl AttributeError)
   \<and> generate_fibonacci \<lparr>kind = SetGenerator, max_length = 100\<rparr> ''json'' 2 3 5
        ''01.01.2024 10:07''
        \<lparr>json_file = Some \<lparr>content = JsonDoc (PDict
           [(''sequence'', PList [PInt 2, PInt 3, PInt 5, PInt 8]),
            (''metadata'', PDict
               [(''type'', PStr ''set''), (''seq_type'', PStr ''fibonacci''), (''len'', PInt 4),
                (''el_type'', PStr ''int''), (''date_created'', PStr ''01.01.2024 10:00''),
                (''date_modified'', PStr ''01.01.2024 10:00''),
                (''author'', PStr ''SetGenerator''), (''min'', PInt 2), (''max'', PInt 8)])]),
           ctime = ''01.01.2024 10:00''\<rparr>, xml_file = None\<rparr>
      = (\<lparr>json_file = Some \<lparr>content = JsonDoc (PDict
           [(''sequence'', PList [PInt 2, PInt 3, PInt 5, PInt 8]),
            (''metadata'', PDict
               [(''type'', PStr ''set''), (''seq_type'', PStr ''fibonacci''), (''len'', PInt 4),
                (''el_type'', PStr ''int''), (''date_created'', PStr ''01.01.2024 10:00''),
                (''date_modified'', PStr ''01.01.2024 10:07''),
                (''author'', PStr ''SetGenerator''), (''min'', PInt 2), (''max'', PInt 8)])]),
           ctime = ''01.01.2024 10:00''\<rparr>, xml_file = None\<rparr>, Inr ())"
  by code_simp

text \<open>
  C5, amended. For a supported format and a length below the limit, when the lookup in the
  target file ends without an error and without a hit (the file is missing or empty, or
  decodes to nothing, or to a record that fails the equivalence check), a set or dict
  generator fails with the Fibonacci error; the file of the other format is gone, a missing
  target file has been created empty and an existing one is exactly as it was. Under the
  same conditions a list generator with a limit above 5, asked for \<open>2, 3, 5\<close>, succeeds and
  leaves in the target file the record of \<open>[2, 3, 5, 8, 13]\<close> with \<open>min = 2\<close>, \<open>max = 13\<close>,
  \<open>len = 5\<close> and the creation time of the file.
\<close>

theorem C5_fibonacci_rejection:
  "(supported fmt \<and> (kind g = SetGenerator \<or> kind g = DictGenerator) \<and> n < max_length g
      \<and> miss g fmt ''fibonacci'' first (fibonacci first second (n - 1)) 0 s \<longrightarrow>
      snd (generate_fibonacci g fmt first second n now s) = Inl FibonacciError
      \<and> other_file fmt (fst (generate_fibonacci g fmt first second n now s)) = None
      \<and> get_file fmt (fst (generate_fibonacci g fmt first second n now s))
          = Some (case get_file fmt s of
                    None \<Rightarrow> \<lparr>content = Empty, ctime = now\<rparr>
                  | Some f \<Rightarrow> f))
   \<and> (supported fmt2 \<and> kind g2 = ListGenerator \<and> 5 < max_length g2
      \<and> miss g2 fmt2 ''fibonacci'' 2 8 0 s2 \<longrightarrow>
      snd (generate_fibonacci g2 fmt2 2 3 5 now2 s2) = Inr ()
      \<and> other_file fmt2 (fst (generate_fibonacci g2 fmt2 2 3 5 now2 s2)) = None
      \<and> get_file fmt2 (fst (generate_fibonacci g2 fmt2 2 3 5 now2 s2))
          = Some \<lparr>content =
                    (if fmt2 = ''xml''
                     then XmlDoc (Elem ''data'' [] None
                       [Elem ''sequence'' [] None
                          [leaf ''el'' ''2'', leaf ''el'' ''3'', leaf ''el'' ''5'',
                           leaf ''el'' ''8'', leaf ''el'' ''13''],
                        Elem ''metadata'' [] None
                          [leaf ''type'' ''list'', leaf ''seq_type'' ''fibonacci'',
                           leaf ''len'' ''5'', leaf ''el_type'' ''int'',
                           leaf ''date_created''
                             (case get_file fmt2 s2 of None \<Rightarrow> now2 | Some f \<Rightarrow> ctime f),
                           leaf ''date_modified'' now2, leaf ''author'' ''ListGenerator'',
                           leaf ''min'' ''2'', leaf ''max'' ''13'']])
                     else JsonDoc (stored_record (PList [PInt 2, PInt 3, PInt 5, PInt 8, PInt 13])
                       ''list'' ''fibonacci'' 5
                       (case get_file fmt2 s2 of None \<Rightarrow> now2 | Some f \<Rightarrow> ctime f)
                       now2 ''ListGenerator'' 2 13)),
                  ctime = (case get_file fmt2 s2 of None \<Rightarrow> now2 | Some f \<Rightarrow> ctime f)\<rparr>)"
proof (intro conjI impI)
  assume h: "supported fmt \<and> (kind g = SetGenerator \<or> kind g = DictGenerator) \<and> n < max_length g
      \<and> miss g fmt ''fibonacci'' first (fibonacci first second (n - 1)) 0 s"
  then have r: "generate_fibonacci g fmt first second n now s
      = (snd (open_append fmt now (remove_unsupported_file fmt s)), Inl FibonacciError)"
    by (intro fibonacci_rejected) simp_all
  show "snd (generate_fibonacci g fmt first second n now s) = Inl FibonacciError"
    by (simp add: r)
  show "other_file fmt (fst (generate_fibonacci g fmt first second n now s)) = None"
    using h by (simp add: r opened_state)
  show "get_file fmt (fst (generate_fibonacci g fmt first second n now s))
          = Some (case get_file fmt s of
                    None \<Rightarrow> \<lparr>content = Empty, ctime = now\<rparr>
                  | Some f \<Rightarrow> f)"
    using h by (simp add: r opened_state)
next
  assume h: "supported fmt2 \<and> kind g2 = ListGenerator \<and> 5 < max_length g2
      \<and> miss g2 fmt2 ''fibonacci'' 2 8 0 s2"
  then have sup: "supported fmt2" by simp
  have r: "generate_fibonacci g2 fmt2 2 3 5 now2 s2
    = (rewrite fmt2 (fst (open_append fmt2 now2 (remove_unsupported_file fmt2 s2)))
         (if fmt2 = ''xml''
          then XmlDoc (Elem ''data'' [] None
                 [Elem ''sequence'' [] None
                    [leaf ''el'' ''2'', leaf ''el'' ''3'', leaf ''el'' ''5'', leaf ''el'' ''8'',
                     leaf ''el'' ''13''],
                  Elem ''metadata'' [] None
                    [leaf ''type'' ''list'', leaf ''seq_type'' ''fibonacci'', leaf ''len'' ''5'',
                     leaf ''el_type'' ''int'',
                     leaf ''date_created''
                       (ctime (fst (open_append fmt2 now2 (remove_unsupported_file fmt2 s2)))),
                     leaf ''date_modified'' now2, leaf ''author'' ''ListGenerator'',
                     leaf ''min'' ''2'', leaf ''max'' ''13'']])
          else JsonDoc (stored_record (PList [PInt 2, PInt 3, PInt 5, PInt 8, PInt 13]) ''list''
                 ''fibonacci'' 5 (ctime (fst (open_append fmt2 now2 (remove_unsupported_file fmt2 s2))))
                 now2 ''ListGenerator'' 2 13))
         (snd (open_append fmt2 now2 (remove_unsupported_file fmt2 s2))),
       Inr ())"
    using h by (intro fibonacci_list) simp_all
  have ct: "ctime (fst (open_append fmt2 now2 (remove_unsupported_file fmt2 s2)))
      = (case get_file fmt2 s2 of None \<Rightarrow> now2 | Some f \<Rightarrow> ctime f)"
    by (simp add: opened_state(3) [OF sup] split: option.splits)
  show "snd (generate_fibonacci g2 fmt2 2 3 5 now2 s2) = Inr ()"
    by (simp add: r)
  show "other_file fmt2 (fst (generate_fibonacci g2 fmt2 2 3 5 now2 s2)) = None"
    using sup by (simp add: r other_file_rewrite opened_state)
  show "get_file fmt2 (fst (generate_fibonacci g2 fmt2 2 3 5 now2 s2))
          = Some \<lparr>content =
                    (if fmt2 = ''xml''
                     then XmlDoc (Elem ''data'' [] None
                       [Elem ''sequence'' [] None
                          [leaf ''el'' ''2'', leaf ''el'' ''3'', leaf ''el'' ''5'',
                           leaf ''el'' ''8'', leaf ''el'' ''13''],
                        Elem ''metadata'' [] None
                          [leaf ''type'' ''list'', leaf ''seq_type'' ''fibonacci'',
                           leaf ''len'' ''5'', leaf ''el_type'' ''int'',
                           leaf ''date_created''
                             (case get_file fmt2 s2 of None \<Rightarrow> now2 | Some f \<Rightarrow> ctime f),
                           leaf ''date_modified'' now2, leaf ''author'' ''ListGenerator'',
                           leaf ''min'' ''2'', leaf ''max'' ''13'']])
                     else JsonDoc (stored_record (PList [PInt 2, PInt 3, PInt 5, PInt 8, PInt 13])
                       ''list'' ''fibonacci'' 5
                       (case get_file fmt2 s2 of None \<Rightarrow> now2 | Some f \<Rightarrow> ctime f)
                       now2 ''ListGenerator'' 2 13)),
                  ctime = (case get_file fmt2 s2 of None \<Rightarrow> now2 | Some f \<Rightarrow> ctime f)\<rparr>"
    unfolding r fst_conv get_file_rewrite content_update ct by simp
qed

theorem C5_fibonacci_rejection_witness:
  "(let g = \<lparr>kind = SetGenerator, max_length = 100\<rparr>
    in supported ''json'' \<and> 5 < max_length g
       \<and> miss g ''json'' ''fibonacci'' 2 (fibonacci 2 3 (5 - 1)) 0 no_files
       \<and> generate_fibonacci g ''json'' 2 3 5 ''01.01.2024 10:00'' no_files
          = (\<lparr>json_file = Some \<lparr>content = Empty, ctime = ''01.01.2024 10:00''\<rparr>, xml_file = None\<rparr>,
             Inl FibonacciError))
   \<and> (let g = \<lparr>kind = DictGenerator, max_length = 100\<rparr>;
           sx = fst (generate_sequence g ''xml'' 0 (Some 3) 1 ''01.01.2024 09:00'' no_files);
           s = \<lparr>json_file = Some \<lparr>content = Malformed, ctime = ''01.01.2024 08:00''\<rparr>,
                xml_file = xml_file sx\<rparr>
       in supported ''xml'' \<and> 5 < max_length g \<and> nonempty_file (xml_file s)
          \<and> miss g ''xml'' ''fibonacci'' 2 (fibonacci 2 3 (5 - 1)) 0 s
          \<and> generate_fibonacci g ''xml'' 2 3 5 ''01.01.2024 10:00'' s
             = (\<lparr>json_file = None, xml_file = xml_file sx\<rparr>, Inl FibonacciError))
   \<and> (let g = \<lparr>kind = ListGenerator, max_length = 100\<rparr>
       in miss g ''json'' ''fibonacci'' 2 8 0 no_files
          \<and> generate_fibonacci g ''json'' 2 3 5 ''01.01.2024 10:00'' no_files
             = (\<lparr>json_file = Some \<lparr>content = JsonDoc (stored_record
                     (PList [PInt 2, PInt 3, PInt 5, PInt 8, PInt 13]) ''list'' ''fibonacci'' 5
                     ''01.01.2024 10:00'' ''01.01.2024 10:00'' ''ListGenerator'' 2 13),
                   ctime = ''01.01.2024 10:00''\<rparr>, xml_file = None\<rparr>, Inr ()))
   \<and> (let g = \<lparr>kind = ListGenerator, max_length = 100\<rparr>;
           s = \<lparr>json_file = None,
                xml_file = Some \<lparr>content = Malformed, ctime = ''01.01.2024 08:00''\<rparr>\<rparr>
       in supported ''xml'' \<and> miss g ''xml'' ''fibonacci'' 2 8 0 s
          \<and> snd (generate_fibonacci g ''xml'' 2 3 5 ''01.01.2024 10:00'' s) = Inr ()
          \<and> map_option ctime (xml_file (fst (generate_fibonacci g ''xml'' 2 3 5
               ''01.01.2024 10:00'' s))) = Some ''01.01.2024 08:00''
          \<and> snd (get_sequence g (fst (generate_fibonacci g ''xml'' 2 3 5 ''01.01.2024 10:00'' s)))
             = Inr (PList [PInt 2, PInt 3, PInt 5, PInt 8, PInt 13]))"
proof -
  define gs where "gs = \<lparr>kind = SetGenerator, max_length = 100\<rparr>"
  define gd where "gd = \<lparr>kind = DictGenerator, max_length = 100\<rparr>"
  define gl where "gl = \<lparr>kind = ListGenerator, max_length = 100\<rparr>"
  define sx where "sx = fst (generate_sequence gd ''xml'' 0 (Some 3) 1 ''01.01.2024 09:00'' no_files)"
  define sd where "sd = \<lparr>json_file = Some \<lparr>content = Malformed, ctime = ''01.01.2024 08:00''\<rparr>,
                xml_file = xml_file sx\<rparr>"
  define sm where "sm = \<lparr>json_file = None,
                xml_file = Some \<lparr>content = Malformed, ctime = ''01.01.2024 08:00''\<rparr>\<rparr>"
  have h1: "supported ''json'' \<and> (kind gs = SetGenerator \<or> kind gs = DictGenerator)
      \<and> 5 < max_length gs \<and> miss gs ''json'' ''fibonacci'' 2 (fibonacci 2 3 (5 - 1)) 0 no_files"
    unfolding gs_def by code_simp
  have h2: "supported ''xml'' \<and> (kind gd = SetGenerator \<or> kind gd = DictGenerator)
      \<and> 5 < max_length gd \<and> miss gd ''xml'' ''fibonacci'' 2 (fibonacci 2 3 (5 - 1)) 0 sd"
    unfolding gd_def sd_def sx_def by code_simp
  have h3: "supported ''json'' \<and> kind gl = ListGenerator \<and> 5 < max_length gl
      \<and> miss gl ''json'' ''fibonacci'' 2 8 0 no_files"
    unfolding gl_def by code_simp
  have h4: "supported ''xml'' \<and> kind gl = ListGenerator \<and> 5 < max_length gl
      \<and> miss gl ''xml'' ''fibonacci'' 2 8 0 sm"
    unfolding gl_def sm_def by code_simp
  have st: "get_file ''json'' no_files = None" "get_file ''xml'' sd = xml_file sx"
    "get_file ''xml'' sm = Some \<lparr>content = Malformed, ctime = ''01.01.2024 08:00''\<rparr>"
    "nonempty_file (xml_file sd)" "xml_file sx \<noteq> None"
    unfolding sd_def sm_def sx_def gd_def by code_simp+
  note t1 = C5_fibonacci_rejection [where fmt = "''json''" and g = gs and n = 5 and first = 2
      and second = 3 and s = no_files and now = "''01.01.2024 10:00''", THEN conjunct1, rule_format, OF h1]
  note t2 = C5_fibonacci_rejection [where fmt = "''xml''" and g = gd and n = 5 and first = 2
      and second = 3 and s = sd and now = "''01.01.2024 10:00''", THEN conjunct1, rule_format, OF h2]
  note t3 = C5_fibonacci_rejection [where ?fmt2.0 = "''json''" and ?g2.0 = gl and ?s2.0 = no_files
      and ?now2.0 = "''01.01.2024 10:00''", THEN conjunct2, rule_format, OF h3]
  note t4 = C5_fibonacci_rejection [where ?fmt2.0 = "''xml''" and ?g2.0 = gl and ?s2.0 = sm
      and ?now2.0 = "''01.01.2024 10:00''", THEN conjunct2, rule_format, OF h4]
  have fs_eq: "other_file ''json'' s = None \<Longrightarrow> get_file ''json'' s = Some f
      \<Longrightarrow> s = \<lparr>json_file = Some f, xml_file = None\<rparr>" for s f
    by (cases s) (simp add: other_file_def get_file_def)
  have fs_eq_x: "other_file ''xml'' s = None \<Longrightarrow> get_file ''xml'' s = fo
      \<Longrightarrow> s = \<lparr>json_file = None, xml_file = fo\<rparr>" for s fo
    by (cases s) (simp add: other_file_def get_file_def)
  have r1: "generate_fibonacci gs ''json'' 2 3 5 ''01.01.2024 10:00'' no_files
      = (\<lparr>json_file = Some \<lparr>content = Empty, ctime = ''01.01.2024 10:00''\<rparr>, xml_file = None\<rparr>,
         Inl FibonacciError)"
    using t1 fs_eq [of "fst (generate_fibonacci gs ''json'' 2 3 5 ''01.01.2024 10:00'' no_files)"]
    by (simp add: st prod_eq_iff)
  obtain fx where fx: "xml_file sx = Some fx" using st(5) by blast
  have r2: "generate_fibonacci gd ''xml'' 2 3 5 ''01.01.2024 10:00'' sd
      = (\<lparr>json_file = None, xml_file = xml_file sx\<rparr>, Inl FibonacciError)"
    using t2 fs_eq_x [of "fst (generate_fibonacci gd ''xml'' 2 3 5 ''01.01.2024 10:00'' sd)"]
    by (simp add: st fx prod_eq_iff)
  have r3: "generate_fibonacci gl ''json'' 2 3 5 ''01.01.2024 10:00'' no_files
      = (\<lparr>json_file = Some \<lparr>content = JsonDoc (stored_record
                     (PList [PInt 2, PInt 3, PInt 5, PInt 8, PInt 13]) ''list'' ''fibonacci'' 5
                     ''01.01.2024 10:00'' ''01.01.2024 10:00'' ''ListGenerator'' 2 13),
                   ctime = ''01.01.2024 10:00''\<rparr>, xml_file = None\<rparr>, Inr ())"
    using t3 fs_eq [of "fst (generate_fibonacci gl ''json'' 2 3 5 ''01.01.2024 10:00'' no_files)"]
    by (simp add: st prod_eq_iff)
  have r4: "snd (generate_fibonacci gl ''xml'' 2 3 5 ''01.01.2024 10:00'' sm) = Inr ()"
    "map_option ctime (xml_file (fst (generate_fibonacci gl ''xml'' 2 3 5
               ''01.01.2024 10:00'' sm))) = Some ''01.01.2024 08:00''"
    using t4 by (simp_all add: get_file_def sm_def)
  have r5: "snd (get_sequence gl (fst (generate_fibonacci gl ''xml'' 2 3 5 ''01.01.2024 10:00'' sm)))
             = Inr (PList [PInt 2, PInt 3, PInt 5, PInt 8, PInt 13])"
    unfolding gl_def sm_def by code_simp
  show ?thesis
    using h1 h2 h3 h4 st(4) r1 r2 r3 r4 r5
    unfolding Let_def gs_def [symmetric] gd_def [symmetric] gl_def [symmetric]
      sx_def [symmetric] sd_def [symmetric] sm_def [symmetric]
    by simp
qed

text \<open>
  C10 (the Fibonacci cache never hits), as the claim states it: whenever the file holds
  the record written by an identical previous call, the check fails. After a call for
  \<open>2, 3, 4\<close> the call for \<open>2, 3, 5\<close> finds \<open>max = 8\<close>, which is what it compares against, and
  writes a record with \<open>max = 8\<close> again; the identical third call finds that record, the
  check returns true and the stored terms are reused.
\<close>

theorem C10_identical_call_reuses_stale_record:
  "(let g = \<lparr>kind = ListGenerator, max_length = 100\<rparr>;
        (s1, r1) = generate_fibonacci g ''json'' 2 3 4 ''01.01.2024 10:00'' no_files;
        (s2, r2) = generate_fibonacci g ''json'' 2 3 5 ''01.01.2024 10:01'' s1;
        (s3, r3) = generate_fibonacci g ''json'' 2 3 5 ''01.01.2024 10:02'' s2
    in (r2, r3,
        bindE (decode ''json'' (content (the (json_file s2))))
          (\<lambda>data. check_equal_sequences g ''fibonacci'' data 2 (fibonacci 2 3 (5 - 1)) 0),
        snd (get_sequence g s3)))
   = (Inr (), Inr (), Inr True, Inr (PList [PInt 2, PInt 3, PInt 5, PInt 8]))"
  by code_simp

text \<open>
  C10, amended. Let a list or tuple generator, with \<open>1 \<le> first \<le> second\<close> and
  \<open>3 \<le> length\<close>, find nothing to reuse (its lookup ends without an error and without a
  hit) and succeed. Then the target file holds the serialised record of the \<open>length\<close>
  terms, whose \<open>max\<close> is the \<open>length\<close>-th term; this is greater than the \<open>(length - 1)\<close>-th
  term the check compares against, so the check on that record returns false, the lookup
  of the identical next call returns nothing, and that call finds nothing to reuse
  either. (A markup record with an empty timestamp does not validate: it decodes to
  nothing, which is a miss as well.)
\<close>

theorem C10_fresh_fibonacci_never_reused:
  assumes "kind g = ListGenerator \<or> kind g = TupleGenerator"
    and "1 \<le> first" "first \<le> second" "3 \<le> n"
    and "miss g fmt ''fibonacci'' first (fibonacci first second (n - 1)) 0 s"
    and "snd (generate_fibonacci g fmt first second n now s) = Inr ()"
  shows "\<exists>f. get_file fmt (fst (generate_fibonacci g fmt first second n now s)) = Some f
    \<and> serialised fmt now (PList (map PInt (fib_sequence first second n))) (sequence_type (kind g))
         ''fibonacci'' (ctime f) (repr (kind g)) first (fibonacci first second n)
       = Inr (content f)
    \<and> decode fmt (content f)
       = Inr (if fmt = ''xml'' \<and> (ctime f = [] \<or> now = []) then None
              else Some (stored_record (PList (map PInt (fib_sequence first second n)))
                     (sequence_type (kind g)) ''fibonacci''
                     (int (length (fib_sequence first second n))) (ctime f) now (repr (kind g))
                     first (fibonacci first second n)))
    \<and> fibonacci first second (n - 1) < fibonacci first second n
    \<and> check_equal_sequences g ''fibonacci''
         (Some (stored_record (PList (map PInt (fib_sequence first second n)))
                  (sequence_type (kind g)) ''fibonacci''
                  (int (length (fib_sequence first second n))) (ctime f) now (repr (kind g))
                  first (fibonacci first second n)))
         first (fibonacci first second (n - 1)) 0 = Inr False
    \<and> cached g fmt ''fibonacci'' f first (fibonacci first second (n - 1)) 0 = Inr None
    \<and> miss g fmt ''fibonacci'' first (fibonacci first second (n - 1)) 0
         (fst (generate_fibonacci g fmt first second n now s))"
proof -
  note sup = generate_fibonacci_success [OF assms(6)]
  define xs where "xs = fib_sequence first second n"
  define ty where "ty = sequence_type (kind g)"
  define au where "au = repr (kind g)"
  define M where "M = fibonacci first second n"
  define R where "R = generate_fibonacci g fmt first second n now s"
  obtain f s2 where o: "open_append fmt now (remove_unsupported_file fmt s) = (f, s2)"
    by (cases "open_append fmt now (remove_unsupported_file fmt s)")
  have mx: "Max (set xs) = M"
    unfolding xs_def M_def by (rule fib_sequence_max [OF assms(2,3,4)])
  have lt: "fibonacci first second (n - 1) < M"
    unfolding M_def by (rule fibonacci_increases [OF assms(2,3,4)])
  have M0: "M \<noteq> 0"
  proof -
    have "fib_rounds 0 first second \<le> fib_rounds (nat (n - 1)) first second"
      by (rule fib_rounds_mono [OF assms(2,3)]) simp
    then show ?thesis using assms(2) by (simp add: M_def fibonacci_def)
  qed
  have ty: "ty \<noteq> ''dict''" "ty \<noteq> []" "au \<noteq> []"
    using assms(1) by (auto simp: ty_def au_def)
  have xs0: "xs \<noteq> []" by (simp add: xs_def fib_sequence_nonempty)
  have r: "R = store fmt now f s2 (PList (map PInt xs)) ty ''fibonacci'' (ctime f) au first M"
    using generate_fibonacci_fresh [OF sup(1) assms(1) sup(2) assms(5) o] by (simp add: R_def xs_def ty_def au_def mx [unfolded xs_def])
  have ok: "snd R = Inr ()" using assms(6) by (simp add: R_def)
  obtain c where c: "serialised fmt now (PList (map PInt xs)) ty ''fibonacci'' (ctime f) au first M = Inr c"
    and rc: "R = (rewrite fmt f c s2, Inr ())"
    using ok unfolding r store_serialised by (auto split: sum.splits)
  define f' where "f' = f\<lparr>content := c\<rparr>"
  have gf: "get_file fmt (fst R) = Some f'"
    by (simp add: rc get_file_rewrite f'_def)
  have cf: "content f' = c" "ctime f' = ctime f" by (simp_all add: f'_def)
  define rec where "rec = stored_record (PList (map PInt xs)) ty ''fibonacci''
      (int (length xs)) (ctime f) now au first M"
  have dec: "decode fmt c = Inr (if fmt = ''xml'' \<and> (ctime f = [] \<or> now = []) then None else Some rec)"
    using decode_serialised_ints [OF ty(1) c] xs0 ty(2,3) M0 by (auto simp: rec_def)
  have chk: "check_equal_sequences g ''fibonacci'' (Some rec) first
      (fibonacci first second (n - 1)) 0 = Inr False"
    unfolding rec_def using lt by (intro check_equal_record_other_max) simp
  have cm: "cached g fmt ''fibonacci'' f' first (fibonacci first second (n - 1)) 0 = Inr None"
  proof (rule cached_miss_by_check)
    show "decode fmt (content f') = Inr (if fmt = ''xml'' \<and> (ctime f = [] \<or> now = []) then None else Some rec)"
      using dec by (simp add: cf)
    show "check_equal_sequences g ''fibonacci''
        (if fmt = ''xml'' \<and> (ctime f = [] \<or> now = []) then None else Some rec)
        first (fibonacci first second (n - 1)) 0 = Inr False"
      using chk by (simp add: check_equal_none)
  qed
  have m: "miss g fmt ''fibonacci'' first (fibonacci first second (n - 1)) 0 (fst R)"
    by (simp add: miss_def gf cm)
  have "get_file fmt (fst R) = Some f'
    \<and> serialised fmt now (PList (map PInt xs)) ty ''fibonacci'' (ctime f') au first M = Inr (content f')
    \<and> decode fmt (content f')
       = Inr (if fmt = ''xml'' \<and> (ctime f' = [] \<or> now = []) then None
              else Some (stored_record (PList (map PInt xs)) ty ''fibonacci''
                     (int (length xs)) (ctime f') now au first M))
    \<and> fibonacci first second (n - 1) < M
    \<and> check_equal_sequences g ''fibonacci''
         (Some (stored_record (PList (map PInt xs)) ty ''fibonacci''
                  (int (length xs)) (ctime f') now au first M))
         first (fibonacci first second (n - 1)) 0 = Inr False
    \<and> cached g fmt ''fibonacci'' f' first (fibonacci first second (n - 1)) 0 = Inr None
    \<and> miss g fmt ''fibonacci'' first (fibonacci first second (n - 1)) 0 (fst R)"
    using gf c dec lt chk cm m by (simp add: cf rec_def)
  then show ?thesis
    unfolding xs_def ty_def au_def M_def R_def by (rule exI [where x = f'])
qed

theorem C10_fresh_fibonacci_never_reused_witness:
  "(let g = \<lparr>kind = ListGenerator, max_length = 100\<rparr>;
        r = generate_fibonacci g ''json'' 2 3 5 ''01.01.2024 10:00'' no_files
    in (1::int) \<le> 2 \<and> (2::int) \<le> 3 \<and> (3::int) \<le> 5
       \<and> miss g ''json'' ''fibonacci'' 2 (fibonacci 2 3 (5 - 1)) 0 no_files
       \<and> snd r = Inr ()
       \<and> fibonacci 2 3 (5 - 1) = 8 \<and> fibonacci 2 3 5 = 13
       \<and> fst r = \<lparr>json_file = Some \<lparr>content = JsonDoc (stored_record
                     (PList [PInt 2, PInt 3, PInt 5, PInt 8, PInt 13]) ''list'' ''fibonacci'' 5
                     ''01.01.2024 10:00'' ''01.01.2024 10:00'' ''ListGenerator'' 2 13),
                   ctime = ''01.01.2024 10:00''\<rparr>, xml_file = None\<rparr>
       \<and> miss g ''json'' ''fibonacci'' 2 (fibonacci 2 3 (5 - 1)) 0 (fst r)
       \<and> generate_fibonacci g ''json'' 2 3 5 ''01.01.2024 10:05'' (fst r)
          = (\<lparr>json_file = Some \<lparr>content = JsonDoc (stored_record
                     (PList [PInt 2, PInt 3, PInt 5, PInt 8, PInt 13]) ''list'' ''fibonacci'' 5
                     ''01.01.2024 10:00'' ''01.01.2024 10:05'' ''ListGenerator'' 2 13),
                   ctime = ''01.01.2024 10:00''\<rparr>, xml_file = None\<rparr>, Inr ()))"
proof -
  define g where "g = \<lparr>kind = ListGenerator, max_length = 100\<rparr>"
  define r where "r = generate_fibonacci g ''json'' 2 3 5 ''01.01.2024 10:00'' no_files"
  have h: "kind g = ListGenerator \<or> kind g = TupleGenerator"
    "(1::int) \<le> 2" "(2::int) \<le> 3" "(3::int) \<le> 5"
    "miss g ''json'' ''fibonacci'' 2 (fibonacci 2 3 (5 - 1)) 0 no_files"
    "snd (generate_fibonacci g ''json'' 2 3 5 ''01.01.2024 10:00'' no_files) = Inr ()"
    unfolding g_def by code_simp+
  have v: "fibonacci 2 3 (5 - 1) = 8" "fibonacci 2 3 5 = 13" by code_simp+
  from C10_fresh_fibonacci_never_reused [OF h]
  have m: "miss g ''json'' ''fibonacci'' 2 (fibonacci 2 3 (5 - 1)) 0 (fst r)"
    unfolding r_def by blast
  have e: "fst r = \<lparr>json_file = Some \<lparr>content = JsonDoc (stored_record
                     (PList [PInt 2, PInt 3, PInt 5, PInt 8, PInt 13]) ''list'' ''fibonacci'' 5
                     ''01.01.2024 10:00'' ''01.01.2024 10:00'' ''ListGenerator'' 2 13),
                   ctime = ''01.01.2024 10:00''\<rparr>, xml_file = None\<rparr>"
    "generate_fibonacci g ''json'' 2 3 5 ''01.01.2024 10:05'' (fst r)
          = (\<lparr>json_file = Some \<lparr>content = JsonDoc (stored_record
                     (PList [PInt 2, PInt 3, PInt 5, PInt 8, PInt 13]) ''list'' ''fibonacci'' 5
                     ''01.01.2024 10:00'' ''01.01.2024 10:05'' ''ListGenerator'' 2 13),
                   ctime = ''01.01.2024 10:00''\<rparr>, xml_file = None\<rparr>, Inr ())"
    unfolding r_def g_def by code_simp+
  show ?thesis
    using h v m e
    unfolding Let_def g_def [symmetric] r_def [symmetric]
    by simp
qed

end
